theory Spec2Isabelle
  imports Complex_Main
begin

section \<open>Data model\<close>

text \<open>
  The tracker of \<^verbatim>\<open>src/backend/tracker.py\<close>, the confidence filter and the detection
  dictionaries of \<^verbatim>\<open>src/backend/detector.py\<close>, the formatter of
  \<^verbatim>\<open>src/backend/utils.py\<close> and the connection handler of \<^verbatim>\<open>src/backend/main.py\<close>.

  Python ints are \<open>int\<close>. A Python float is the real number it holds, and the float
  operations that set a threshold are rounded as the code rounds them (section
  \<open>Floating point\<close>): the quotient and the maximum of \<open>min_conf\<close> and the quotient and
  the product of \<open>scaled_max_dist\<close> in binary64, the threshold of the confidence mask in
  binary32, the conversion of the squared distance and its square root in binary64. The
  similarity \<open>round(conf * 100, 1)\<close> of a detection is the exact decimal. The centroids,
  the frame width and \<open>max_distance\<close> are pixel coordinates, an image dimension and a pixel
  distance, inside the range of a double; a number of the configuration is whatever the
  client sent. The clock reading
  \<open>int(time.time() * 1000)\<close> is the parameter \<open>current_time_ms\<close> of \<open>update\<close>.
\<close>

datatype error = KeyError | OverflowError

section \<open>Floating point\<close>

text \<open>
  Rounding to the nearest number with \<open>p\<close> significant bits, a tie going to the even
  significand; binary64 has 53 bits and binary32 has 24. \<open>binade x\<close> is the exponent of
  the power of two at or below \<open>\<bar>x\<bar>\<close>, so that \<open>2 powi (binade x - (p - 1))\<close> is the spacing
  of the representable numbers around \<open>x\<close>. The exponent is not bounded here: the result
  is the one of the machine format for every value between its smallest normal and its
  largest finite number.
\<close>

definition round_half_even :: "real \<Rightarrow> int" where
  "round_half_even y =
     (let f = \<lfloor>y\<rfloor>; r = y - of_int f
      in if r < 1 / 2 then f else if 1 / 2 < r then f + 1 else if even f then f else f + 1)"

definition binade :: "real \<Rightarrow> int" where
  "binade x = \<lfloor>log 2 \<bar>x\<bar>\<rfloor>"

definition fl_round :: "nat \<Rightarrow> real \<Rightarrow> real" where
  "fl_round p x =
     (if x = 0 then 0
      else (let e = binade x - (int p - 1)
            in of_int (round_half_even (x / 2 powi e)) * 2 powi e))"

definition float64 :: "real \<Rightarrow> real" where
  "float64 x = fl_round 53 x"

definition float32 :: "real \<Rightarrow> real" where
  "float32 x = fl_round 24 x"

text \<open>
  A number of the configuration, as \<open>json.loads\<close> delivers it: an int of any size or a
  float. Comparing it uses its value; dividing an int by a float first converts the int,
  which raises \<open>OverflowError\<close> when the int rounds beyond the largest double
  \<open>2^1024 - 2^971\<close>, that is from \<open>2^1024 - 2^970\<close> on.
\<close>

datatype pynum = PyInt int | PyFloat real

fun pynum_value :: "pynum \<Rightarrow> real" where
  "pynum_value (PyInt n) = of_int n"
| "pynum_value (PyFloat x) = x"

definition int_to_float :: "int \<Rightarrow> error + real" where
  "int_to_float n =
     (if 2 ^ 1024 - 2 ^ 970 \<le> \<bar>n\<bar> then Inl OverflowError else Inr (float64 (of_int n)))"

section \<open>Dictionaries and records\<close>

text \<open>
  A Python \<open>dict\<close> with integer keys, in insertion order: the order in which
  \<open>items()\<close> iterates. Assigning to a key that is present keeps its position; a new key
  goes to the end; \<open>del\<close> of an absent key raises \<open>KeyError\<close>, as does a subscript read.
\<close>

type_synonym 'v pydict = "(int \<times> 'v) list"

definition dict_keys :: "'v pydict \<Rightarrow> int list" where
  "dict_keys d = map fst d"

definition dict_get :: "'v pydict \<Rightarrow> int \<Rightarrow> error + 'v" where
  "dict_get d k = (case map_of d k of None \<Rightarrow> Inl KeyError | Some v \<Rightarrow> Inr v)"

fun dict_set :: "'v pydict \<Rightarrow> int \<Rightarrow> 'v \<Rightarrow> 'v pydict" where
  "dict_set [] k v = [(k, v)]"
| "dict_set ((k', v') # d) k v =
     (if k' = k then (k, v) # d else (k', v') # dict_set d k v)"

definition dict_del :: "'v pydict \<Rightarrow> int \<Rightarrow> error + 'v pydict" where
  "dict_del d k =
     (case map_of d k of
        None \<Rightarrow> Inl KeyError
      | Some _ \<Rightarrow> Inr (filter (\<lambda>kv. fst kv \<noteq> k) d))"

text \<open>The value stored per tracked object: \<open>{centroid, last_seen_ms, last_spoken_ms, last_label}\<close>.\<close>

record track =
  centroid :: "int \<times> int"
  last_seen_ms :: int
  last_spoken_ms :: int
  last_label :: string

text \<open>
  A detection dictionary as \<open>detect_objects\<close> builds it. The keys carry the prefix
  \<open>det_\<close> (the keys \<open>id\<close> and \<open>size\<close> are constants of HOL).
\<close>

record detection =
  det_bbox :: "int \<times> int \<times> int \<times> int"
  det_centroid :: "int \<times> int"
  det_color :: string
  det_shape :: string
  det_size :: string
  det_label :: string
  det_similarity :: real
  det_area :: int
  det_class_name :: string
  det_confidence :: real

text \<open>The same dictionary after \<open>update\<close> has added \<open>id\<close>, \<open>should_speak\<close>, \<open>spoken_text\<close>.\<close>

record annotated = detection +
  det_id :: int
  should_speak :: bool
  spoken_text :: string

text \<open>The configuration dictionary; \<open>None\<close> is an absent key.\<close>

record config =
  min_similarity :: "pynum option"
  speak_cooldown_ms :: "real option"

record ObjectTracker =
  max_distance :: int
  next_id :: int
  tracked_objects :: "track pydict"

section \<open>utils.py: the spoken-text formatter\<close>

text \<open>
  \<open>str.capitalize\<close> and \<open>str.title\<close> of the Python library, on ASCII strings (every
  name of \<open>COCO_CLASSES\<close> is ASCII): a cased character is a letter \<open>A-Z\<close> or \<open>a-z\<close>.
\<close>

definition is_upper :: "char \<Rightarrow> bool" where
  "is_upper c = (65 \<le> (of_char c :: nat) \<and> (of_char c :: nat) \<le> 90)"

definition is_lower :: "char \<Rightarrow> bool" where
  "is_lower c = (97 \<le> (of_char c :: nat) \<and> (of_char c :: nat) \<le> 122)"

definition to_upper :: "char \<Rightarrow> char" where
  "to_upper c = (if is_lower c then char_of ((of_char c :: nat) - 32) else c)"

definition to_lower :: "char \<Rightarrow> char" where
  "to_lower c = (if is_upper c then char_of ((of_char c :: nat) + 32) else c)"

definition capitalize :: "string \<Rightarrow> string" where
  "capitalize s = (case s of [] \<Rightarrow> [] | c # cs \<Rightarrow> to_upper c # map to_lower cs)"

text \<open>\<open>title_from prev s\<close>: \<open>prev\<close> says whether the previous character was cased.\<close>

fun title_from :: "bool \<Rightarrow> string \<Rightarrow> string" where
  "title_from prev [] = []"
| "title_from prev (c # cs) =
     (if is_lower c then (if prev then c else to_upper c) # title_from True cs
      else if is_upper c then (if prev then to_lower c else c) # title_from True cs
      else c # title_from False cs)"

definition title :: "string \<Rightarrow> string" where
  "title s = title_from False s"

definition format_spoken_text :: "string \<Rightarrow> string \<Rightarrow> string \<Rightarrow> real \<Rightarrow> string" where
  "format_spoken_text color shape sz similarity = capitalize shape"

section \<open>detector.py: threshold, confidence mask, detection dictionaries\<close>

definition COCO_CLASSES :: "string list" where
  "COCO_CLASSES =
    [''person'', ''bicycle'', ''car'', ''motorcycle'', ''airplane'', ''bus'', ''train'',
     ''truck'', ''boat'', ''traffic light'', ''fire hydrant'', ''stop sign'',
     ''parking meter'', ''bench'', ''bird'', ''cat'', ''dog'', ''horse'', ''sheep'', ''cow'',
     ''elephant'', ''bear'', ''zebra'', ''giraffe'', ''backpack'', ''umbrella'', ''handbag'',
     ''tie'', ''suitcase'', ''frisbee'', ''skis'', ''snowboard'', ''sports ball'', ''kite'',
     ''baseball bat'', ''baseball glove'', ''skateboard'', ''surfboard'', ''tennis racket'',
     ''bottle'', ''wine glass'', ''cup'', ''fork'', ''knife'', ''spoon'', ''bowl'', ''banana'',
     ''apple'', ''sandwich'', ''orange'', ''broccoli'', ''carrot'', ''hot dog'', ''pizza'',
     ''donut'', ''cake'', ''chair'', ''couch'', ''potted plant'', ''bed'', ''dining table'',
     ''toilet'', ''tv'', ''laptop'', ''mouse'', ''remote'', ''keyboard'', ''cell phone'',
     ''microwave'', ''oven'', ''toaster'', ''sink'', ''refrigerator'', ''book'', ''clock'',
     ''vase'', ''scissors'', ''teddy bear'', ''hair drier'', ''toothbrush'']"

text \<open>\<open>v / 100.0\<close> for a number \<open>v\<close> of the configuration.\<close>

fun divide_by_100 :: "pynum \<Rightarrow> error + real" where
  "divide_by_100 (PyFloat x) = Inr (float64 (x / 100))"
| "divide_by_100 (PyInt n) =
     (case int_to_float n of Inl e \<Rightarrow> Inl e | Inr x \<Rightarrow> Inr (float64 (x / 100)))"

text \<open>
  \<open>min_conf = max(0.30, config.get("min_similarity", 30) / 100.0)\<close>; the literal \<open>0.30\<close>
  is the double nearest to 3/10.
\<close>

definition min_conf :: "config \<Rightarrow> error + real" where
  "min_conf cfg =
     (case divide_by_100 (case min_similarity cfg of None \<Rightarrow> PyInt 30 | Some v \<Rightarrow> v) of
        Inl e \<Rightarrow> Inl e
      | Inr q \<Rightarrow> Inr (max (float64 (30 / 100)) q))"

text \<open>
  \<open>mask = confs > min_conf\<close>, then \<open>boxes_xywh[mask], confs[mask], class_ids[mask]\<close>:
  \<open>confs\<close> is a binary32 array and \<open>min_conf\<close> a Python float, so the comparison is made
  in binary32, against \<open>min_conf\<close> rounded to binary32. Boolean-mask indexing keeps the
  positions where the mask is true, in order.
\<close>

definition conf_mask :: "real list \<Rightarrow> real \<Rightarrow> bool list" where
  "conf_mask confs mc = map (\<lambda>c. c > float32 mc) confs"

definition mask_select :: "'a list \<Rightarrow> bool list \<Rightarrow> 'a list" where
  "mask_select xs msk = map fst (filter snd (zip xs msk))"

definition filter_step ::
  "'b list \<Rightarrow> real list \<Rightarrow> nat list \<Rightarrow> config
     \<Rightarrow> error + ('b list \<times> real list \<times> nat list)" where
  "filter_step boxes_xywh confs class_ids cfg =
     (case min_conf cfg of
        Inl e \<Rightarrow> Inl e
      | Inr mc \<Rightarrow>
          (let msk = conf_mask confs mc
           in Inr (mask_select boxes_xywh msk, mask_select confs msk,
                   mask_select class_ids msk)))"

text \<open>\<open>round(x, 1)\<close>: to one decimal place, a tie going to the even digit.\<close>

definition round1 :: "real \<Rightarrow> real" where
  "round1 x =
     (let y = x * 10; f = \<lfloor>y\<rfloor>; r = y - of_int f
      in of_int (if r < 1 / 2 then f else if 1 / 2 < r then f + 1
                 else if even f then f else f + 1) / 10)"

text \<open>The dictionary appended for one kept box \<open>[x, y, bw, bh]\<close>, confidence and class index.\<close>

definition make_detection :: "int \<Rightarrow> int \<Rightarrow> int \<Rightarrow> int \<Rightarrow> real \<Rightarrow> nat \<Rightarrow> detection" where
  "make_detection x y bw bh conf cid =
     (let name = (if cid < length COCO_CLASSES then COCO_CLASSES ! cid else ''unknown'')
      in \<lparr> det_bbox = (x, y, bw, bh),
           det_centroid = (x + bw div 2, y + bh div 2),
           det_color = ''unknown'',
           det_shape = name,
           det_size = ''medium'',
           det_label = title name,
           det_similarity = round1 (conf * 100),
           det_area = bw * bh,
           det_class_name = name,
           det_confidence = conf \<rparr>)"

section \<open>tracker.py\<close>

definition ObjectTracker_init :: "int \<Rightarrow> ObjectTracker" where
  "ObjectTracker_init md = \<lparr> max_distance = md, next_id = 1, tracked_objects = [] \<rparr>"

text \<open>
  \<open>math.sqrt((p1[0] - p2[0])**2 + (p1[1] - p2[1])**2)\<close>: the sum is an exact int, which
  \<open>math.sqrt\<close> converts to double and whose square root it returns rounded to double.
\<close>

definition calculate_distance :: "int \<times> int \<Rightarrow> int \<times> int \<Rightarrow> real" where
  "calculate_distance p1 p2 =
     float64 (sqrt (float64 (of_int ((fst p1 - fst p2)\<^sup>2 + (snd p1 - snd p2)\<^sup>2))))"

text \<open>
  The search loop of \<open>_find_closest_match\<close> over \<open>tracked_objects.items()\<close>. The running
  \<open>min_distance\<close> is \<open>None\<close> while it is still \<open>float('inf')\<close>.
\<close>

definition below_min :: "real \<Rightarrow> real option \<Rightarrow> bool" where
  "below_min distance min_distance =
     (case min_distance of None \<Rightarrow> True | Some m \<Rightarrow> distance < m)"

fun closest_loop ::
  "track pydict \<Rightarrow> int \<times> int \<Rightarrow> real \<Rightarrow> int option \<Rightarrow> real option \<Rightarrow> int option" where
  "closest_loop [] c scaled_max_dist closest_id min_distance = closest_id"
| "closest_loop ((obj_id, obj_data) # rest) c scaled_max_dist closest_id min_distance =
     (let distance = calculate_distance c (centroid obj_data)
      in if below_min distance min_distance \<and> distance < scaled_max_dist
         then closest_loop rest c scaled_max_dist (Some obj_id) (Some distance)
         else closest_loop rest c scaled_max_dist closest_id min_distance)"

text \<open>
  \<open>scaled_max_dist = self.max_distance * (frame_w / 640.0)\<close>: both ints are converted to
  double, and the quotient and the product are each rounded to double.
\<close>

definition scaled_max_dist :: "ObjectTracker \<Rightarrow> int \<Rightarrow> real" where
  "scaled_max_dist self frame_w =
     float64 (float64 (of_int (max_distance self)) * float64 (float64 (of_int frame_w) / 640))"

definition find_closest_match :: "ObjectTracker \<Rightarrow> int \<times> int \<Rightarrow> int \<Rightarrow> int \<Rightarrow> int option" where
  "find_closest_match self c frame_w frame_h =
     closest_loop (tracked_objects self) c (scaled_max_dist self frame_w) None None"

definition annotate :: "detection \<Rightarrow> int \<Rightarrow> bool \<Rightarrow> annotated" where
  "annotate detection obj_id speak =
     detection.extend detection
       (annotated.fields obj_id speak
          (format_spoken_text (det_color detection) (det_shape detection)
             (det_size detection) (det_similarity detection)))"

text \<open>
  The body of the loop over the detections: the tracker, the set \<open>matched_ids\<close> and the
  annotated detection that is appended to \<open>updated_detections\<close>.
\<close>

definition process_detection ::
  "ObjectTracker \<Rightarrow> int \<Rightarrow> real \<Rightarrow> real \<Rightarrow> int \<Rightarrow> int \<Rightarrow> int set \<Rightarrow> detection
     \<Rightarrow> error + (ObjectTracker \<times> int set \<times> annotated)" where
  "process_detection self current_time_ms min_sim cooldown frame_w frame_h matched_ids detection =
     (let c = det_centroid detection;
          label = det_label detection;
          similarity = det_similarity detection
      in case find_closest_match self c frame_w frame_h of
           Some obj_id \<Rightarrow>
             (case dict_get (tracked_objects self) obj_id of
                Inl e \<Rightarrow> Inl e
              | Inr old_data \<Rightarrow>
                  let old_label = last_label old_data;
                      last_spoken = last_spoken_ms old_data;
                      time_since_spoken = current_time_ms - last_spoken;
                      speak = (min_sim \<le> similarity \<and>
                               (label \<noteq> old_label \<or> cooldown \<le> of_int time_since_spoken));
                      new_data = old_data\<lparr> centroid := c, last_seen_ms := current_time_ms,
                                           last_label := label \<rparr>;
                      new_data = (if speak then new_data\<lparr> last_spoken_ms := current_time_ms \<rparr>
                                  else new_data)
                  in Inr (self\<lparr> tracked_objects := dict_set (tracked_objects self) obj_id new_data \<rparr>,
                          insert obj_id matched_ids,
                          annotate detection obj_id speak))
         | None \<Rightarrow>
             let obj_id = next_id self;
                 speak = (min_sim \<le> similarity);
                 new_data = \<lparr> centroid = c, last_seen_ms = current_time_ms,
                              last_spoken_ms = (if speak then current_time_ms else 0),
                              last_label = label \<rparr>
             in Inr (self\<lparr> next_id := next_id self + 1,
                           tracked_objects := dict_set (tracked_objects self) obj_id new_data \<rparr>,
                     insert obj_id matched_ids,
                     annotate detection obj_id speak))"

fun match_loop ::
  "ObjectTracker \<Rightarrow> int \<Rightarrow> real \<Rightarrow> real \<Rightarrow> int \<Rightarrow> int \<Rightarrow> int set \<Rightarrow> detection list
     \<Rightarrow> error + (ObjectTracker \<times> int set \<times> annotated list)" where
  "match_loop self now min_sim cooldown frame_w frame_h matched_ids [] =
     Inr (self, matched_ids, [])"
| "match_loop self now min_sim cooldown frame_w frame_h matched_ids (d # ds) =
     (case process_detection self now min_sim cooldown frame_w frame_h matched_ids d of
        Inl e \<Rightarrow> Inl e
      | Inr (self', matched', a) \<Rightarrow>
          (case match_loop self' now min_sim cooldown frame_w frame_h matched' ds of
             Inl e \<Rightarrow> Inl e
           | Inr (self'', matched'', as) \<Rightarrow> Inr (self'', matched'', a # as)))"

text \<open>The first expiry loop collects \<open>ids_to_remove\<close>; the second deletes them one by one.\<close>

definition timeout_ms :: int where
  "timeout_ms = 1000"

fun ids_to_remove :: "track pydict \<Rightarrow> int set \<Rightarrow> int \<Rightarrow> int list" where
  "ids_to_remove [] matched_ids now = []"
| "ids_to_remove ((obj_id, obj_data) # rest) matched_ids now =
     (if obj_id \<notin> matched_ids
      then (let time_since_seen = now - last_seen_ms obj_data
            in if timeout_ms < time_since_seen
               then obj_id # ids_to_remove rest matched_ids now
               else ids_to_remove rest matched_ids now)
      else ids_to_remove rest matched_ids now)"

fun remove_ids :: "track pydict \<Rightarrow> int list \<Rightarrow> error + track pydict" where
  "remove_ids d [] = Inr d"
| "remove_ids d (k # ks) =
     (case dict_del d k of Inl e \<Rightarrow> Inl e | Inr d' \<Rightarrow> remove_ids d' ks)"

text \<open>\<open>config.get("min_similarity", 70)\<close> and \<open>config.get("speak_cooldown_ms", 2000)\<close>\<close>

definition tracker_min_similarity :: "config \<Rightarrow> real" where
  "tracker_min_similarity cfg =
     (case min_similarity cfg of None \<Rightarrow> 70 | Some v \<Rightarrow> pynum_value v)"

definition tracker_cooldown :: "config \<Rightarrow> real" where
  "tracker_cooldown cfg = (case speak_cooldown_ms cfg of None \<Rightarrow> 2000 | Some v \<Rightarrow> v)"

definition update ::
  "ObjectTracker \<Rightarrow> int \<Rightarrow> detection list \<Rightarrow> int \<Rightarrow> int \<Rightarrow> config
     \<Rightarrow> error + (ObjectTracker \<times> annotated list)" where
  "update self current_time_ms detections frame_w frame_h cfg =
     (let min_sim = tracker_min_similarity cfg;
          cooldown = tracker_cooldown cfg
      in case match_loop self current_time_ms min_sim cooldown frame_w frame_h {} detections of
           Inl e \<Rightarrow> Inl e
         | Inr (self', matched_ids, updated_detections) \<Rightarrow>
             (case remove_ids (tracked_objects self')
                     (ids_to_remove (tracked_objects self') matched_ids current_time_ms) of
                Inl e \<Rightarrow> Inl e
              | Inr objs \<Rightarrow> Inr (self'\<lparr> tracked_objects := objs \<rparr>, updated_detections)))"

definition reset :: "ObjectTracker \<Rightarrow> ObjectTracker" where
  "reset self = self\<lparr> next_id := 1, tracked_objects := [] \<rparr>"

section \<open>main.py: one module-level tracker behind every connection\<close>

text \<open>
  \<open>tracker = ObjectTracker()\<close> is created once, at module level. The handler
  \<open>websocket_endpoint\<close> runs once per connection: it calls \<open>tracker.reset()\<close> after
  accepting, then \<open>tracker.update\<close> for every frame it receives. Between two \<open>await\<close>s the
  handler runs alone, so the handlers of several connections interleave at the grain of
  these two events. A frame event carries the clock reading, the list that
  \<open>detector.detect_objects\<close> returned, the frame size and the configuration.
\<close>

datatype event =
  Accept nat
| Frame nat int "detection list" int int config

fun session_of :: "event \<Rightarrow> nat" where
  "session_of (Accept s) = s"
| "session_of (Frame s now ds frame_w frame_h cfg) = s"

definition module_tracker :: ObjectTracker where
  "module_tracker = ObjectTracker_init 60"

text \<open>One event on the module-level tracker: the new tracker and what is sent back.\<close>

fun handle_event ::
  "ObjectTracker \<Rightarrow> event \<Rightarrow> error + (ObjectTracker \<times> (nat \<times> annotated list) list)" where
  "handle_event tracker (Accept s) = Inr (reset tracker, [])"
| "handle_event tracker (Frame s now ds frame_w frame_h cfg) =
     (case update tracker now ds frame_w frame_h cfg of
        Inl e \<Rightarrow> Inl e
      | Inr (tracker', out) \<Rightarrow> Inr (tracker', [(s, out)]))"

fun run_server ::
  "ObjectTracker \<Rightarrow> event list \<Rightarrow> error + (ObjectTracker \<times> (nat \<times> annotated list) list)" where
  "run_server tracker [] = Inr (tracker, [])"
| "run_server tracker (e # es) =
     (case handle_event tracker e of
        Inl err \<Rightarrow> Inl err
      | Inr (tracker', sent) \<Rightarrow>
          (case run_server tracker' es of
             Inl err \<Rightarrow> Inl err
           | Inr (tracker'', sent') \<Rightarrow> Inr (tracker'', sent @ sent')))"

text \<open>What one session receives: the responses addressed to it, in order.\<close>

definition responses_to :: "nat \<Rightarrow> (nat \<times> annotated list) list \<Rightarrow> annotated list list" where
  "responses_to s sent = map snd (filter (\<lambda>r. fst r = s) sent)"

section \<open>Observers used to state the properties\<close>

text \<open>
  The ids that one run of the matching loop gives to new tracks (the branch
  \<open># New object\<close>, taken when \<open>_find_closest_match\<close> returns \<open>None\<close>), in order of creation.
\<close>

fun created_ids ::
  "ObjectTracker \<Rightarrow> int \<Rightarrow> real \<Rightarrow> real \<Rightarrow> int \<Rightarrow> int \<Rightarrow> int set \<Rightarrow> detection list
     \<Rightarrow> int list" where
  "created_ids self now min_sim cooldown frame_w frame_h matched_ids [] = []"
| "created_ids self now min_sim cooldown frame_w frame_h matched_ids (d # ds) =
     (case process_detection self now min_sim cooldown frame_w frame_h matched_ids d of
        Inl e \<Rightarrow> []
      | Inr (self', matched', a) \<Rightarrow>
          (case find_closest_match self (det_centroid d) frame_w frame_h of
             None \<Rightarrow> [det_id a]
           | Some tid \<Rightarrow> [])
          @ created_ids self' now min_sim cooldown frame_w frame_h matched' ds)"

fun created_by :: "ObjectTracker \<Rightarrow> event \<Rightarrow> int list" where
  "created_by tracker (Accept s) = []"
| "created_by tracker (Frame s now ds frame_w frame_h cfg) =
     created_ids tracker now (tracker_min_similarity cfg) (tracker_cooldown cfg)
       frame_w frame_h {} ds"

text \<open>The ids given to new tracks over a sequence of events, in order of creation.\<close>

fun created_in :: "ObjectTracker \<Rightarrow> event list \<Rightarrow> int list" where
  "created_in tracker [] = []"
| "created_in tracker (e # es) =
     (case handle_event tracker e of
        Inl err \<Rightarrow> []
      | Inr (tracker', sent) \<Rightarrow> created_by tracker e @ created_in tracker' es)"

fun is_frame :: "event \<Rightarrow> bool" where
  "is_frame (Accept s) = False"
| "is_frame (Frame s now ds frame_w frame_h cfg) = True"

text \<open>The same event, arriving on the connection \<open>f s\<close> instead of \<open>s\<close>.\<close>

fun relabel :: "(nat \<Rightarrow> nat) \<Rightarrow> event \<Rightarrow> event" where
  "relabel f (Accept s) = Accept (f s)"
| "relabel f (Frame s now ds frame_w frame_h cfg) = Frame (f s) now ds frame_w frame_h cfg"

section \<open>Example inputs\<close>

text \<open>
  A tracker holding a cup seen at time 1000 and a dog seen at time 200, and three
  detections as \<open>detect_objects\<close> builds them: two of a cup near track 1, one of a dog far
  from both tracks. The configuration is the empty dictionary.
\<close>

definition ex_tracker :: ObjectTracker where
  "ex_tracker = \<lparr> max_distance = 60, next_id = 3,
      tracked_objects =
        [(1, \<lparr> centroid = (100, 100), last_seen_ms = 1000, last_spoken_ms = 1000,
               last_label = ''Cup'' \<rparr>),
         (2, \<lparr> centroid = (300, 300), last_seen_ms = 200, last_spoken_ms = 0,
               last_label = ''Dog'' \<rparr>)] \<rparr>"

definition ex_cup :: detection where
  "ex_cup = make_detection 95 93 20 20 (85 / 100) 41"

definition ex_cup2 :: detection where
  "ex_cup2 = make_detection 92 90 20 20 (75 / 100) 41"

definition ex_dog :: detection where
  "ex_dog = make_detection 390 290 20 20 (90 / 100) 16"

text \<open>
  A tracker holding one cup at (10, 10), and a detection of a cup whose centroid
  (259, 10) lies at distance exactly 249 from it, for a frame 2656 pixels wide.
\<close>

definition ex_wide_tracker :: ObjectTracker where
  "ex_wide_tracker = \<lparr> max_distance = 60, next_id = 2,
      tracked_objects =
        [(1, \<lparr> centroid = (10, 10), last_seen_ms = 1000, last_spoken_ms = 1000,
               last_label = ''Cup'' \<rparr>)] \<rparr>"

definition ex_cup_far :: detection where
  "ex_cup_far = make_detection 249 0 20 20 (85 / 100) 41"

definition ex_cfg :: config where
  "ex_cfg = \<lparr> min_similarity = None, speak_cooldown_ms = None \<rparr>"

section \<open>Facts about rounding\<close>

lemma two_powi_pos: "0 < (2::real) powi e"
  by (simp add: zero_less_power_int)

lemma two_powi_powr: "(2::real) powi e = 2 powr of_int e"
  by (simp add: powr_real_of_int')

lemma binade_bounds:
  assumes "x \<noteq> 0"
  shows "2 powi binade x \<le> \<bar>x\<bar>" and "\<bar>x\<bar> < 2 powi (binade x + 1)"
proof -
  have p: "0 < \<bar>x\<bar>" using assms by simp
  have "of_int (binade x) \<le> log 2 \<bar>x\<bar>" by (simp add: binade_def)
  then have "2 powr of_int (binade x) \<le> 2 powr log 2 \<bar>x\<bar>" by simp
  then show "2 powi binade x \<le> \<bar>x\<bar>" using p by (simp add: two_powi_powr)
  have "log 2 \<bar>x\<bar> < of_int (binade x + 1)" by (simp add: binade_def)
  then have "2 powr log 2 \<bar>x\<bar> < 2 powr of_int (binade x + 1)" by (simp del: of_int_add)
  then show "\<bar>x\<bar> < 2 powi (binade x + 1)" using p by (simp add: two_powi_powr del: of_int_add)
qed

lemma binade_eq:
  assumes "2 powi e \<le> \<bar>x\<bar>" and "\<bar>x\<bar> < 2 powi (e + 1)"
  shows "binade x = e"
proof -
  have p: "0 < \<bar>x\<bar>" using assms(1) two_powi_pos [of e] by linarith
  have "2 powr of_int e \<le> 2 powr log 2 \<bar>x\<bar>" using assms(1) p by (simp add: two_powi_powr)
  then have a: "of_int e \<le> log 2 \<bar>x\<bar>" by simp
  have "2 powr log 2 \<bar>x\<bar> < 2 powr of_int (e + 1)" using assms(2) p by (simp add: two_powi_powr del: of_int_add)
  then have b: "log 2 \<bar>x\<bar> < of_int e + 1" by simp
  show ?thesis unfolding binade_def using a b by (rule floor_unique)
qed

lemma fl_round_eval:
  assumes "2 powi e \<le> \<bar>x\<bar>" and "\<bar>x\<bar> < 2 powi (e + 1)"
  shows "fl_round p x =
           of_int (round_half_even (x / 2 powi (e - (int p - 1)))) * 2 powi (e - (int p - 1))"
proof -
  have "0 < \<bar>x\<bar>" using assms(1) two_powi_pos [of e] by linarith
  then have "x \<noteq> 0" by simp
  then show ?thesis
    by (simp add: fl_round_def binade_eq [OF assms] Let_def)
qed

lemma round_half_even_bounds:
  "\<lfloor>y\<rfloor> \<le> round_half_even y" "round_half_even y \<le> \<lfloor>y\<rfloor> + 1"
  by (simp_all add: round_half_even_def Let_def)

lemma round_half_even_of_int: "round_half_even (of_int k) = k"
  by (simp add: round_half_even_def)

lemma round_half_even_mono:
  assumes "a \<le> b"
  shows "round_half_even a \<le> round_half_even b"
proof (cases "\<lfloor>a\<rfloor> = \<lfloor>b\<rfloor>")
  case True
  have "a - of_int \<lfloor>a\<rfloor> \<le> b - of_int \<lfloor>b\<rfloor>" using assms True by simp
  then show ?thesis
    using True by (auto simp: round_half_even_def Let_def)
next
  case False
  have "\<lfloor>a\<rfloor> \<le> \<lfloor>b\<rfloor>" using assms by (rule floor_mono)
  with False have "\<lfloor>a\<rfloor> + 1 \<le> \<lfloor>b\<rfloor>" by simp
  with round_half_even_bounds(2) [of a] round_half_even_bounds(1) [of b]
  show ?thesis by linarith
qed

lemma binade_mono:
  assumes "0 < x" and "x \<le> y"
  shows "binade x \<le> binade y"
  unfolding binade_def using assms by (intro floor_mono) simp

lemma fl_round_pos_bounds:
  assumes "0 < x" and "0 < p"
  shows "2 powi binade x \<le> fl_round p x" and "fl_round p x \<le> 2 powi (binade x + 1)"
proof -
  let ?e = "binade x - (int p - 1)"
  let ?y = "x / 2 powi ?e"
  have x0: "x \<noteq> 0" using assms(1) by simp
  have fl: "fl_round p x = of_int (round_half_even ?y) * 2 powi ?e"
    using x0 by (simp add: fl_round_def Let_def)
  have lo: "2 powi binade x = of_int (2 ^ (p - 1)) * (2::real) powi ?e"
  proof -
    have "(2::real) powi binade x = 2 powi (int (p - 1) + ?e)"
      using assms(2) by (simp add: of_nat_diff)
    also have "\<dots> = 2 powi int (p - 1) * 2 powi ?e"
      by (rule power_int_add) simp
    finally show ?thesis by (simp add: power_int_of_nat)
  qed
  have hi: "2 powi (binade x + 1) = of_int (2 ^ p) * (2::real) powi ?e"
  proof -
    have "(2::real) powi (binade x + 1) = 2 powi (int p + ?e)"
      by simp
    also have "\<dots> = 2 powi int p * 2 powi ?e"
      by (rule power_int_add) simp
    finally show ?thesis by (simp add: power_int_of_nat)
  qed
  have "of_int (2 ^ (p - 1)) * (2::real) powi ?e \<le> x"
    using binade_bounds(1) [OF x0] assms(1) lo by simp
  then have "of_int (2 ^ (p - 1)) \<le> ?y"
    using two_powi_pos [of ?e] by (simp add: pos_le_divide_eq)
  then have "round_half_even (of_int (2 ^ (p - 1))) \<le> round_half_even ?y"
    by (rule round_half_even_mono)
  then have "(of_int (2 ^ (p - 1)) :: real) \<le> of_int (round_half_even ?y)"
    unfolding round_half_even_of_int by (simp only: of_int_le_iff)
  then have "of_int (2 ^ (p - 1)) * (2::real) powi ?e \<le> of_int (round_half_even ?y) * 2 powi ?e"
    using two_powi_pos [of ?e] by (simp only: mult_le_cancel_right_pos)
  then show "2 powi binade x \<le> fl_round p x"
    unfolding fl lo .
  have "x \<le> of_int (2 ^ p) * (2::real) powi ?e"
    using binade_bounds(2) [OF x0] assms(1) hi by simp
  then have "?y \<le> of_int (2 ^ p)"
    using two_powi_pos [of ?e] by (simp add: pos_divide_le_eq)
  then have "round_half_even ?y \<le> round_half_even (of_int (2 ^ p))"
    by (rule round_half_even_mono)
  then have "(of_int (round_half_even ?y) :: real) \<le> of_int (2 ^ p)"
    unfolding round_half_even_of_int by (simp only: of_int_le_iff)
  then have "of_int (round_half_even ?y) * 2 powi ?e \<le> of_int (2 ^ p) * (2::real) powi ?e"
    using two_powi_pos [of ?e] by (simp only: mult_le_cancel_right_pos)
  then show "fl_round p x \<le> 2 powi (binade x + 1)"
    unfolding fl hi .
qed

lemma fl_round_pos: "0 < x \<Longrightarrow> 0 < p \<Longrightarrow> 0 < fl_round p x"
  using fl_round_pos_bounds(1) [of x p] two_powi_pos [of "binade x"] by linarith

lemma fl_round_mono_pos:
  assumes "0 < x" and "x \<le> y" and "0 < p"
  shows "fl_round p x \<le> fl_round p y"
proof (cases "binade x = binade y")
  case True
  let ?e = "binade y - (int p - 1)"
  have "x / 2 powi ?e \<le> y / 2 powi ?e"
    using assms(2) two_powi_pos [of ?e] by (simp add: divide_right_mono)
  then have "round_half_even (x / 2 powi ?e) \<le> round_half_even (y / 2 powi ?e)"
    by (rule round_half_even_mono)
  then have "(of_int (round_half_even (x / 2 powi ?e)) :: real) * 2 powi ?e
      \<le> of_int (round_half_even (y / 2 powi ?e)) * 2 powi ?e"
    using two_powi_pos [of ?e] by (simp only: mult_le_cancel_right_pos of_int_le_iff)
  then show ?thesis
    using assms True by (simp add: fl_round_def Let_def)
next
  case False
  have y: "0 < y" using assms by simp
  from binade_mono [OF assms(1,2)] False have "binade x + 1 \<le> binade y" by simp
  then have "(2::real) powi (binade x + 1) \<le> 2 powi binade y"
    by (intro power_int_increasing) simp_all
  with fl_round_pos_bounds(2) [OF assms(1,3)] fl_round_pos_bounds(1) [OF y assms(3)]
  show ?thesis by linarith
qed

lemma fl_round_nonpos:
  assumes "x \<le> 0"
  shows "fl_round p x \<le> 0"
proof (cases "x = 0")
  case True
  then show ?thesis by (simp add: fl_round_def)
next
  case False
  let ?e = "binade x - (int p - 1)"
  have "x / 2 powi ?e < 0"
    using assms False two_powi_pos [of ?e] by (simp add: divide_neg_pos)
  then have "\<lfloor>x / 2 powi ?e\<rfloor> < 0"
    by (simp only: floor_less_zero)
  then have "\<lfloor>x / 2 powi ?e\<rfloor> + 1 \<le> 0"
    by linarith
  with round_half_even_bounds(2) [of "x / 2 powi ?e"]
  have "round_half_even (x / 2 powi ?e) \<le> 0" by linarith
  then have "(of_int (round_half_even (x / 2 powi ?e)) :: real) * 2 powi ?e \<le> 0"
    using two_powi_pos [of ?e] by (simp add: mult_le_0_iff)
  then show ?thesis
    using False by (simp add: fl_round_def Let_def)
qed

lemma fl_round_le:
  assumes "x \<le> y" and "0 < y" and "0 < p"
  shows "fl_round p x \<le> fl_round p y"
proof (cases "0 < x")
  case True
  then show ?thesis using assms by (intro fl_round_mono_pos)
next
  case False
  then have "fl_round p x \<le> 0" by (intro fl_round_nonpos) simp
  with fl_round_pos [OF assms(2,3)] show ?thesis by linarith
qed

lemma float64_three_tenths: "float64 (3 / 10) = 5404319552844595 / 18014398509481984"
  unfolding float64_def
  by (subst fl_round_eval [of "- 2"]) (simp_all add: round_half_even_def power_int_minus)


lemma float64_half: "float64 (1 / 2) = 1 / 2"
  unfolding float64_def
  by (subst fl_round_eval [of "- 1"]) (simp_all add: round_half_even_def power_int_minus)

lemma float32_half: "float32 (1 / 2) = 1 / 2"
  unfolding float32_def
  by (subst fl_round_eval [of "- 1"]) (simp_all add: round_half_even_def power_int_minus)

lemma float64_1: "float64 1 = 1"
  unfolding float64_def
  by (subst fl_round_eval [of 0]) (simp_all add: round_half_even_def power_int_minus)


lemma float64_50: "float64 50 = 50"
  unfolding float64_def
  by (subst fl_round_eval [of 5]) (simp_all add: round_half_even_def power_int_minus)

lemma float64_60: "float64 60 = 60"
  unfolding float64_def
  by (subst fl_round_eval [of 5]) (simp_all add: round_half_even_def power_int_minus)

lemma float64_640: "float64 640 = 640"
  unfolding float64_def
  by (subst fl_round_eval [of 9]) (simp_all add: round_half_even_def power_int_minus)

lemma float64_2656: "float64 2656 = 2656"
  unfolding float64_def
  by (subst fl_round_eval [of 11]) (simp_all add: round_half_even_def power_int_minus)

lemma float64_2656_by_640: "float64 (2656 / 640) = 2336242306698445 / 562949953421312"
  unfolding float64_def
  by (subst fl_round_eval [of 2]) (simp_all add: round_half_even_def power_int_minus)

lemma float64_60_times:
  "float64 (60 * (2336242306698445 / 562949953421312)) = 8760908650119169 / 35184372088832"
  unfolding float64_def
  by (subst fl_round_eval [of 7]) (simp_all add: round_half_even_def power_int_minus)

lemma scaled_max_dist_640: "max_distance self = 60 \<Longrightarrow> scaled_max_dist self 640 = 60"
  by (simp add: scaled_max_dist_def float64_60 float64_640 float64_1)

lemma scaled_max_dist_2656:
  "max_distance self = 60 \<Longrightarrow> scaled_max_dist self 2656 = 8760908650119169 / 35184372088832"
  unfolding scaled_max_dist_def
  by (simp only: of_int_numeral float64_60 float64_2656 float64_2656_by_640 float64_60_times)

lemma float64_59: "float64 59 = 59"
  unfolding float64_def
  by (subst fl_round_eval [of 5]) (simp_all add: round_half_even_def power_int_minus)

lemma float64_249: "float64 249 = 249"
  unfolding float64_def
  by (subst fl_round_eval [of 7]) (simp_all add: round_half_even_def power_int_minus)

lemma float64_3481: "float64 3481 = 3481"
  unfolding float64_def
  by (subst fl_round_eval [of 11]) (simp_all add: round_half_even_def power_int_minus)

lemma float64_3600: "float64 3600 = 3600"
  unfolding float64_def
  by (subst fl_round_eval [of 11]) (simp_all add: round_half_even_def power_int_minus)

lemma float64_62001: "float64 62001 = 62001"
  unfolding float64_def
  by (subst fl_round_eval [of 15]) (simp_all add: round_half_even_def power_int_minus)

lemma float64_le:
  assumes "x \<le> y" and "0 < y"
  shows "float64 x \<le> float64 y"
  unfolding float64_def using assms by (intro fl_round_le) simp_all

lemma float64_nonneg: "0 \<le> x \<Longrightarrow> 0 \<le> float64 x"
proof (cases "x = 0")
  case True
  then show ?thesis by (simp add: float64_def fl_round_def)
next
  case False
  assume "0 \<le> x"
  with False have "0 < x" by simp
  then have "0 < float64 x" unfolding float64_def by (intro fl_round_pos) simp_all
  then show ?thesis by simp
qed

lemma float64_mono_nonneg:
  assumes "0 \<le> x" and "x \<le> y"
  shows "float64 x \<le> float64 y"
proof (cases "0 < y")
  case True
  with assms(2) show ?thesis by (intro float64_le)
next
  case False
  with assms have "x = 0" "y = 0" by simp_all
  then show ?thesis by simp
qed

section \<open>Facts about the dictionary operations\<close>

lemma dict_set_keys:
  "map fst (dict_set d k v) = (if k \<in> set (map fst d) then map fst d else map fst d @ [k])"
  by (induction d) (auto split: if_splits)

lemma dict_set_distinct:
  "distinct (map fst d) \<Longrightarrow> distinct (map fst (dict_set d k v))"
  by (simp add: dict_set_keys del: set_map)

lemma map_of_dict_set: "map_of (dict_set d k v) = (map_of d)(k \<mapsto> v)"
  by (induction d) (auto)

lemma dict_get_dict_set: "dict_get (dict_set d k v) k' = (if k' = k then Inr v else dict_get d k')"
  by (simp add: dict_get_def map_of_dict_set)

lemma dict_set_fresh: "k \<notin> fst ` set d \<Longrightarrow> dict_set d k v = d @ [(k, v)]"
  by (induction d) auto

lemma ids_to_remove_eq:
  "ids_to_remove objs matched now =
     map fst (filter (\<lambda>kv. fst kv \<notin> matched \<and> timeout_ms < now - last_seen_ms (snd kv)) objs)"
  by (induction objs matched now rule: ids_to_remove.induct) (auto simp: Let_def)

lemma remove_ids_eq:
  "distinct ks \<Longrightarrow> set ks \<subseteq> fst ` set d \<Longrightarrow>
   remove_ids d ks = Inr (filter (\<lambda>kv. fst kv \<notin> set ks) d)"
proof (induction ks arbitrary: d)
  case Nil
  then show ?case by simp
next
  case (Cons k ks)
  from Cons.prems obtain v where v: "map_of d k = Some v"
    by (cases "map_of d k") (auto simp: map_of_eq_None_iff)
  let ?d' = "filter (\<lambda>kv. fst kv \<noteq> k) d"
  have del: "dict_del d k = Inr ?d'"
    by (simp add: dict_del_def v)
  have sub: "set ks \<subseteq> fst ` set ?d'"
    using Cons.prems by force
  have "remove_ids ?d' ks = Inr (filter (\<lambda>kv. fst kv \<notin> set ks) ?d')"
    using Cons.IH [OF _ sub] Cons.prems by simp
  then show ?case
    by (simp add: del conj_commute)
qed

lemma expiry_eq:
  assumes "distinct (map fst objs)"
  shows "remove_ids objs (ids_to_remove objs matched now) =
         Inr (filter (\<lambda>kv. \<not> (fst kv \<notin> matched \<and> timeout_ms < now - last_seen_ms (snd kv))) objs)"
proof -
  let ?P = "\<lambda>kv. fst kv \<notin> matched \<and> timeout_ms < now - last_seen_ms (snd kv)"
  let ?R = "map fst (filter ?P objs)"
  have d: "distinct ?R" using assms by (rule distinct_map_filter)
  have s: "set ?R \<subseteq> fst ` set objs" by auto
  have "\<And>kv. kv \<in> set objs \<Longrightarrow> (fst kv \<notin> set ?R) = (\<not> ?P kv)"
  proof -
    fix kv assume kv: "kv \<in> set objs"
    show "(fst kv \<notin> set ?R) = (\<not> ?P kv)"
    proof
      assume "fst kv \<notin> set ?R" with kv show "\<not> ?P kv" by force
    next
      assume n: "\<not> ?P kv"
      show "fst kv \<notin> set ?R"
      proof
        assume "fst kv \<in> set ?R"
        then obtain kv' where kv': "kv' \<in> set objs" "?P kv'" "fst kv' = fst kv" by auto
        with assms kv have "kv' = kv" by (meson eq_key_imp_eq_value prod.expand distinct_map inj_onD)
        with n kv' show False by simp
      qed
    qed
  qed
  then have "filter (\<lambda>kv. fst kv \<notin> set ?R) objs = filter (\<lambda>kv. \<not> ?P kv) objs"
    by (intro filter_cong) auto
  with remove_ids_eq [OF d s] show ?thesis
    by (simp add: ids_to_remove_eq)
qed

section \<open>The nearest-track search\<close>

lemma dist_nonneg: "0 \<le> calculate_distance p q"
  unfolding calculate_distance_def
  by (intro float64_nonneg real_sqrt_ge_zero) simp

lemma closest_loop_spec:
  "closest_loop objs c s cid md = r \<Longrightarrow>
     (r = cid \<and> (\<forall>kv\<in>set objs. \<not> (below_min (calculate_distance c (centroid (snd kv))) md
                                        \<and> calculate_distance c (centroid (snd kv)) < s)))
   \<or> (\<exists>tid od. r = Some tid \<and> (tid, od) \<in> set objs
         \<and> calculate_distance c (centroid od) < s
         \<and> below_min (calculate_distance c (centroid od)) md
         \<and> (\<forall>kv\<in>set objs. calculate_distance c (centroid (snd kv)) < s
                 \<longrightarrow> calculate_distance c (centroid od) \<le> calculate_distance c (centroid (snd kv))))"
proof (induction objs c s cid md arbitrary: r rule: closest_loop.induct)
  case (1 c s cid md)
  then show ?case by simp
next
  case (2 obj_id obj_data rest c s cid md)
  let ?d = "calculate_distance c (centroid obj_data)"
  show ?case
  proof (cases "below_min ?d md \<and> ?d < s")
    case True
    with "2.prems" have r: "closest_loop rest c s (Some obj_id) (Some ?d) = r" by simp
    from "2.IH"(1) [OF refl True r] show ?thesis
    proof
      assume a: "r = Some obj_id \<and> (\<forall>kv\<in>set rest. \<not> (below_min (calculate_distance c (centroid (snd kv))) (Some ?d)
                                        \<and> calculate_distance c (centroid (snd kv)) < s))"
      have "\<forall>kv\<in>set ((obj_id, obj_data) # rest). calculate_distance c (centroid (snd kv)) < s
                 \<longrightarrow> ?d \<le> calculate_distance c (centroid (snd kv))"
        using a by (auto simp: below_min_def)
      with a True show ?thesis by auto
    next
      assume "\<exists>tid od. r = Some tid \<and> (tid, od) \<in> set rest
         \<and> calculate_distance c (centroid od) < s
         \<and> below_min (calculate_distance c (centroid od)) (Some ?d)
         \<and> (\<forall>kv\<in>set rest. calculate_distance c (centroid (snd kv)) < s
                 \<longrightarrow> calculate_distance c (centroid od) \<le> calculate_distance c (centroid (snd kv)))"
      then obtain tid od where b: "r = Some tid" "(tid, od) \<in> set rest"
         "calculate_distance c (centroid od) < s"
         "calculate_distance c (centroid od) < ?d"
         "\<forall>kv\<in>set rest. calculate_distance c (centroid (snd kv)) < s
                 \<longrightarrow> calculate_distance c (centroid od) \<le> calculate_distance c (centroid (snd kv))"
        by (auto simp: below_min_def)
      have "below_min (calculate_distance c (centroid od)) md"
        using True b(4) by (auto simp: below_min_def split: option.splits)
      with b show ?thesis by auto
    qed
  next
    case False
    with "2.prems" have r: "closest_loop rest c s cid md = r" by auto
    from "2.IH"(2) [OF refl False r] show ?thesis
    proof
      assume "r = cid \<and> (\<forall>kv\<in>set rest. \<not> (below_min (calculate_distance c (centroid (snd kv))) md
                                        \<and> calculate_distance c (centroid (snd kv)) < s))"
      with False show ?thesis by auto
    next
      assume "\<exists>tid od. r = Some tid \<and> (tid, od) \<in> set rest
         \<and> calculate_distance c (centroid od) < s
         \<and> below_min (calculate_distance c (centroid od)) md
         \<and> (\<forall>kv\<in>set rest. calculate_distance c (centroid (snd kv)) < s
                 \<longrightarrow> calculate_distance c (centroid od) \<le> calculate_distance c (centroid (snd kv)))"
      then obtain tid od where b: "r = Some tid" "(tid, od) \<in> set rest"
         "calculate_distance c (centroid od) < s"
         "below_min (calculate_distance c (centroid od)) md"
         "\<forall>kv\<in>set rest. calculate_distance c (centroid (snd kv)) < s
                 \<longrightarrow> calculate_distance c (centroid od) \<le> calculate_distance c (centroid (snd kv))"
        by auto
      have "?d < s \<longrightarrow> calculate_distance c (centroid od) \<le> ?d"
        using False b(4) by (auto simp: below_min_def split: option.splits)
      with b show ?thesis by auto
    qed
  qed
qed

lemma find_closest_match_Some:
  assumes "find_closest_match self c frame_w frame_h = Some tid"
  shows "\<exists>od. (tid, od) \<in> set (tracked_objects self)
           \<and> calculate_distance c (centroid od) < scaled_max_dist self frame_w
           \<and> (\<forall>kv\<in>set (tracked_objects self).
                 calculate_distance c (centroid (snd kv)) < scaled_max_dist self frame_w
                 \<longrightarrow> calculate_distance c (centroid od) \<le> calculate_distance c (centroid (snd kv)))"
  using closest_loop_spec [OF assms [unfolded find_closest_match_def]]
  by auto

lemma find_closest_match_None:
  "(find_closest_match self c frame_w frame_h = None) =
     (\<forall>kv\<in>set (tracked_objects self).
          \<not> calculate_distance c (centroid (snd kv)) < scaled_max_dist self frame_w)"
  using closest_loop_spec [of "tracked_objects self" c "scaled_max_dist self frame_w" None None
          "find_closest_match self c frame_w frame_h"]
  by (auto simp: find_closest_match_def below_min_def)

lemma calculate_distance_mono:
  assumes "(fst p - fst q)\<^sup>2 + (snd p - snd q)\<^sup>2 \<le> (fst p' - fst q')\<^sup>2 + (snd p' - snd q')\<^sup>2"
  shows "calculate_distance p q \<le> calculate_distance p' q'"
proof -
  let ?n = "(fst p - fst q)\<^sup>2 + (snd p - snd q)\<^sup>2"
  let ?n' = "(fst p' - fst q')\<^sup>2 + (snd p' - snd q')\<^sup>2"
  have n: "(0::real) \<le> of_int ?n" by simp
  have "(of_int ?n :: real) \<le> of_int ?n'" using assms by (simp only: of_int_le_iff)
  with n have a: "float64 (of_int ?n) \<le> float64 (of_int ?n')"
    by (rule float64_mono_nonneg)
  have "0 \<le> float64 (of_int ?n)" using n by (rule float64_nonneg)
  then have "0 \<le> sqrt (float64 (of_int ?n))" by simp
  moreover have "sqrt (float64 (of_int ?n)) \<le> sqrt (float64 (of_int ?n'))"
    using a by simp
  ultimately show ?thesis
    unfolding calculate_distance_def by (rule float64_mono_nonneg)
qed

lemma calculate_distance_not_less:
  "(fst p' - fst q')\<^sup>2 + (snd p' - snd q')\<^sup>2 \<le> (fst p - fst q)\<^sup>2 + (snd p - snd q)\<^sup>2
   \<Longrightarrow> (calculate_distance p q < calculate_distance p' q') = False"
  using calculate_distance_mono [of p' q' p q] by simp

lemma calculate_distance_59:
  "calculate_distance (59, 0) (0, 0) = 59"
  by (simp add: calculate_distance_def float64_3481 float64_59 real_sqrt_unique)

lemma calculate_distance_60:
  "calculate_distance (60, 0) (0, 0) = 60"
  by (simp add: calculate_distance_def float64_3600 float64_60 real_sqrt_unique)

lemma calculate_distance_249:
  "calculate_distance (259, 10) (10, 10) = 249"
  by (simp add: calculate_distance_def float64_62001 float64_249 real_sqrt_unique)

lemma calculate_distance_less_60:
  assumes "(fst p - fst q)\<^sup>2 + (snd p - snd q)\<^sup>2 \<le> 3481"
  shows "(calculate_distance p q < 60) = True"
proof -
  have "calculate_distance p q \<le> calculate_distance (59, 0) (0, 0)"
    using assms by (intro calculate_distance_mono) simp
  then show ?thesis by (simp add: calculate_distance_59)
qed

lemma calculate_distance_not_less_60:
  assumes "3600 \<le> (fst p - fst q)\<^sup>2 + (snd p - snd q)\<^sup>2"
  shows "(calculate_distance p q < 60) = False"
proof -
  have "calculate_distance (60, 0) (0, 0) \<le> calculate_distance p q"
    using assms by (intro calculate_distance_mono) simp
  then show ?thesis by (simp add: calculate_distance_60)
qed

section \<open>One detection, the matching loop, the whole call\<close>

lemma find_closest_match_key:
  "find_closest_match self c frame_w frame_h = Some tid \<Longrightarrow> tid \<in> set (dict_keys (tracked_objects self))"
  by (drule find_closest_match_Some) (force simp: dict_keys_def)

lemma dict_get_key:
  "k \<in> set (dict_keys d) \<Longrightarrow> \<exists>v. dict_get d k = Inr v \<and> (k, v) \<in> set d"
  by (cases "map_of d k") (auto simp: dict_get_def dict_keys_def map_of_eq_None_iff dest: map_of_SomeD)

lemma truncate_annotate: "detection.truncate (annotate d i b) = d"
  by (simp add: annotate_def detection.truncate_def detection.extend_def)

lemma det_id_annotate: "det_id (annotate d i b) = i"
  by (simp add: annotate_def detection.extend_def annotated.fields_def)


lemma spoken_text_annotate:
  "spoken_text (annotate d i b) =
     format_spoken_text (det_color d) (det_shape d) (det_size d) (det_similarity d)"
  by (simp add: annotate_def detection.extend_def annotated.fields_def)

lemma process_detection_matched:
  assumes "find_closest_match self (det_centroid d) frame_w frame_h = Some tid"
  shows "\<exists>old_data. dict_get (tracked_objects self) tid = Inr old_data \<and>
           process_detection self now min_sim cooldown frame_w frame_h matched_ids d =
             Inr (self\<lparr> tracked_objects := dict_set (tracked_objects self) tid
                          (old_data\<lparr> centroid := det_centroid d, last_seen_ms := now,
                                     last_label := det_label d,
                                     last_spoken_ms :=
                                       (if min_sim \<le> det_similarity d \<and>
                                           (det_label d \<noteq> last_label old_data \<or>
                                            cooldown \<le> of_int (now - last_spoken_ms old_data))
                                        then now else last_spoken_ms old_data) \<rparr>) \<rparr>,
                  insert tid matched_ids,
                  annotate d tid (min_sim \<le> det_similarity d \<and>
                                   (det_label d \<noteq> last_label old_data \<or>
                                    cooldown \<le> of_int (now - last_spoken_ms old_data))))"
proof -
  from find_closest_match_key [OF assms] obtain old_data where
    "dict_get (tracked_objects self) tid = Inr old_data"
    using dict_get_key by blast
  then show ?thesis
    using assms by (auto simp: process_detection_def Let_def)
qed

lemma process_detection_new:
  assumes "find_closest_match self (det_centroid d) frame_w frame_h = None"
  shows "process_detection self now min_sim cooldown frame_w frame_h matched_ids d =
           Inr (self\<lparr> next_id := next_id self + 1,
                      tracked_objects := dict_set (tracked_objects self) (next_id self)
                         \<lparr> centroid = det_centroid d, last_seen_ms = now,
                            last_spoken_ms = (if min_sim \<le> det_similarity d then now else 0),
                            last_label = det_label d \<rparr> \<rparr>,
                insert (next_id self) matched_ids,
                annotate d (next_id self) (min_sim \<le> det_similarity d))"
  using assms by (simp add: process_detection_def Let_def)

lemma process_detection_step:
  "\<exists>self' a. process_detection self now min_sim cooldown frame_w frame_h matched_ids d =
               Inr (self', insert (det_id a) matched_ids, a)
     \<and> detection.truncate a = d
     \<and> spoken_text a = capitalize (det_shape d)
     \<and> max_distance self' = max_distance self
     \<and> dict_keys (tracked_objects self') =
         (if det_id a \<in> set (dict_keys (tracked_objects self)) then dict_keys (tracked_objects self)
          else dict_keys (tracked_objects self) @ [det_id a])
     \<and> (\<exists>v. dict_get (tracked_objects self') (det_id a) = Inr v \<and> last_seen_ms v = now)
     \<and> (case find_closest_match self (det_centroid d) frame_w frame_h of
          Some tid \<Rightarrow> det_id a = tid \<and> tid \<in> set (dict_keys (tracked_objects self))
                       \<and> next_id self' = next_id self
        | None \<Rightarrow> det_id a = next_id self \<and> next_id self' = next_id self + 1)"
proof (cases "find_closest_match self (det_centroid d) frame_w frame_h")
  case None
  show ?thesis
    unfolding process_detection_new [OF None] None
    by (simp add: det_id_annotate truncate_annotate spoken_text_annotate format_spoken_text_def
          dict_keys_def dict_set_keys dict_get_dict_set del: set_map)
next
  case (Some tid)
  from process_detection_matched [OF Some, of now min_sim cooldown matched_ids]
  obtain old_data where o: "dict_get (tracked_objects self) tid = Inr old_data"
    and p: "process_detection self now min_sim cooldown frame_w frame_h matched_ids d =
             Inr (self\<lparr> tracked_objects := dict_set (tracked_objects self) tid
                          (old_data\<lparr> centroid := det_centroid d, last_seen_ms := now,
                                     last_label := det_label d,
                                     last_spoken_ms :=
                                       (if min_sim \<le> det_similarity d \<and>
                                           (det_label d \<noteq> last_label old_data \<or>
                                            cooldown \<le> of_int (now - last_spoken_ms old_data))
                                        then now else last_spoken_ms old_data) \<rparr>) \<rparr>,
                  insert tid matched_ids,
                  annotate d tid (min_sim \<le> det_similarity d \<and>
                                   (det_label d \<noteq> last_label old_data \<or>
                                    cooldown \<le> of_int (now - last_spoken_ms old_data))))"
    by blast
  have k: "tid \<in> set (dict_keys (tracked_objects self))"
    by (rule find_closest_match_key [OF Some])
  show ?thesis
    unfolding p Some
    using k
    by (simp add: det_id_annotate truncate_annotate spoken_text_annotate format_spoken_text_def
          dict_keys_def dict_set_keys dict_get_dict_set del: set_map)
qed

lemma upto_append_pred: "i \<le> j \<Longrightarrow> j \<le> k \<Longrightarrow> [i..j - 1] @ [j..k - 1] = [i..k - 1]"
proof (cases "j = k")
  case True
  then show ?thesis by simp
next
  case False
  assume "i \<le> j" "j \<le> k"
  with False show ?thesis using upto_split1 [of i j "k - 1"] by simp
qed

lemma match_loop_props:
  "\<exists>self' outs.
      match_loop self now min_sim cooldown frame_w frame_h matched_ids dets =
        Inr (self', matched_ids \<union> set (map det_id outs), outs)
    \<and> map detection.truncate outs = dets
    \<and> map spoken_text outs = map (\<lambda>d. capitalize (det_shape d)) dets
    \<and> max_distance self' = max_distance self
    \<and> set (dict_keys (tracked_objects self')) =
        set (dict_keys (tracked_objects self)) \<union> set (map det_id outs)
    \<and> (distinct (dict_keys (tracked_objects self)) \<longrightarrow> distinct (dict_keys (tracked_objects self')))
    \<and> next_id self \<le> next_id self'
    \<and> set (map det_id outs) \<subseteq> set (dict_keys (tracked_objects self)) \<union> {next_id self ..< next_id self'}
    \<and> created_ids self now min_sim cooldown frame_w frame_h matched_ids dets =
        [next_id self .. next_id self' - 1]"
proof (induction dets arbitrary: self matched_ids)
  case Nil
  show ?case by simp
next
  case (Cons d ds)
  from process_detection_step [of self now min_sim cooldown frame_w frame_h matched_ids d]
  obtain self1 a where
    p: "process_detection self now min_sim cooldown frame_w frame_h matched_ids d =
               Inr (self1, insert (det_id a) matched_ids, a)"
    and t: "detection.truncate a = d"
    and sp: "spoken_text a = capitalize (det_shape d)"
    and md: "max_distance self1 = max_distance self"
    and ks: "dict_keys (tracked_objects self1) =
         (if det_id a \<in> set (dict_keys (tracked_objects self)) then dict_keys (tracked_objects self)
          else dict_keys (tracked_objects self) @ [det_id a])"
    and f: "(case find_closest_match self (det_centroid d) frame_w frame_h of
          Some tid \<Rightarrow> det_id a = tid \<and> tid \<in> set (dict_keys (tracked_objects self))
                       \<and> next_id self1 = next_id self
        | None \<Rightarrow> det_id a = next_id self \<and> next_id self1 = next_id self + 1)"
    by blast
  from Cons.IH [of self1 "insert (det_id a) matched_ids"]
  obtain self2 outs where
    m: "match_loop self1 now min_sim cooldown frame_w frame_h (insert (det_id a) matched_ids) ds =
        Inr (self2, insert (det_id a) matched_ids \<union> set (map det_id outs), outs)"
    and t2: "map detection.truncate outs = ds"
    and sp2: "map spoken_text outs = map (\<lambda>d. capitalize (det_shape d)) ds"
    and md2: "max_distance self2 = max_distance self1"
    and ks2: "set (dict_keys (tracked_objects self2)) =
        set (dict_keys (tracked_objects self1)) \<union> set (map det_id outs)"
    and di2: "distinct (dict_keys (tracked_objects self1)) \<longrightarrow> distinct (dict_keys (tracked_objects self2))"
    and n2: "next_id self1 \<le> next_id self2"
    and sub2: "set (map det_id outs) \<subseteq> set (dict_keys (tracked_objects self1)) \<union> {next_id self1 ..< next_id self2}"
    and cr2: "created_ids self1 now min_sim cooldown frame_w frame_h (insert (det_id a) matched_ids) ds =
        [next_id self1 .. next_id self2 - 1]"
    by blast
  have n1: "next_id self \<le> next_id self1"
    using f by (auto split: option.splits)
  have c: "created_ids self now min_sim cooldown frame_w frame_h matched_ids (d # ds) =
        [next_id self .. next_id self2 - 1]"
  proof (cases "find_closest_match self (det_centroid d) frame_w frame_h")
    case None
    with f have e: "det_id a = next_id self" "next_id self1 = next_id self + 1" by auto
    have "[next_id self .. next_id self2 - 1] = next_id self # [next_id self + 1 .. next_id self2 - 1]"
      using n2 e by (simp add: upto_rec1)
    then show ?thesis using None p cr2 e by simp
  next
    case (Some tid)
    with f have "next_id self1 = next_id self" by auto
    then show ?thesis using Some p cr2 by simp
  qed
  have sub: "set (map det_id (a # outs)) \<subseteq>
      set (dict_keys (tracked_objects self)) \<union> {next_id self ..< next_id self2}"
  proof -
    have "det_id a \<in> set (dict_keys (tracked_objects self)) \<union> {next_id self ..< next_id self2}"
      using f n2 by (auto split: option.splits)
    moreover have "set (dict_keys (tracked_objects self1)) \<subseteq>
        set (dict_keys (tracked_objects self)) \<union> {next_id self ..< next_id self2}"
      using ks f n2 by (auto split: option.splits if_splits)
    ultimately show ?thesis using sub2 n1 by auto
  qed
  have "match_loop self now min_sim cooldown frame_w frame_h matched_ids (d # ds) =
        Inr (self2, matched_ids \<union> set (map det_id (a # outs)), a # outs)"
    using p m by simp
  moreover have "map detection.truncate (a # outs) = d # ds" using t t2 by simp
  moreover have "map spoken_text (a # outs) = map (\<lambda>d. capitalize (det_shape d)) (d # ds)"
    using sp sp2 by simp
  moreover have "max_distance self2 = max_distance self" using md md2 by simp
  moreover have "set (dict_keys (tracked_objects self2)) =
        set (dict_keys (tracked_objects self)) \<union> set (map det_id (a # outs))"
    using ks ks2 by (auto split: if_splits)
  moreover have "distinct (dict_keys (tracked_objects self)) \<longrightarrow> distinct (dict_keys (tracked_objects self2))"
    using ks di2 by (auto split: if_splits)
  moreover have "next_id self \<le> next_id self2" using n1 n2 by simp
  moreover note sub c
  ultimately show ?case
    by (intro exI [of _ self2] exI [of _ "a # outs"] conjI)
qed

lemma update_props:
  assumes "distinct (dict_keys (tracked_objects self))"
  shows "\<exists>self1 outs.
      match_loop self now (tracker_min_similarity cfg) (tracker_cooldown cfg) frame_w frame_h {} dets =
        Inr (self1, set (map det_id outs), outs)
    \<and> update self now dets frame_w frame_h cfg =
        Inr (self1\<lparr> tracked_objects :=
               filter (\<lambda>kv. \<not> (fst kv \<notin> set (map det_id outs) \<and>
                                timeout_ms < now - last_seen_ms (snd kv)))
                 (tracked_objects self1) \<rparr>, outs)
    \<and> distinct (dict_keys (tracked_objects self1))"
proof -
  from match_loop_props [of self now "tracker_min_similarity cfg" "tracker_cooldown cfg"
      frame_w frame_h "{}" dets]
  obtain self1 outs where
    m: "match_loop self now (tracker_min_similarity cfg) (tracker_cooldown cfg) frame_w frame_h {} dets =
        Inr (self1, {} \<union> set (map det_id outs), outs)"
    and d: "distinct (dict_keys (tracked_objects self)) \<longrightarrow> distinct (dict_keys (tracked_objects self1))"
    by blast
  from d assms have d1: "distinct (map fst (tracked_objects self1))"
    by (simp add: dict_keys_def)
  show ?thesis
    using m d1 expiry_eq [OF d1, of "set (map det_id outs)" now]
    by (simp add: update_def dict_keys_def)
qed

lemma subset_range_trans:
  fixes a b c :: int
  assumes "A \<subseteq> B \<union> {a..<b}" and "C \<subseteq> A \<union> {b..<c}" and "a \<le> b" and "b \<le> c"
  shows "C \<subseteq> B \<union> {a..<c}"
proof
  fix x assume "x \<in> C"
  with assms(2) have "x \<in> A \<or> x \<in> {b..<c}" by blast
  then show "x \<in> B \<union> {a..<c}"
  proof
    assume "x \<in> A"
    with assms(1) have "x \<in> B \<or> x \<in> {a..<b}" by blast
    then show ?thesis using assms(4) by auto
  next
    assume "x \<in> {b..<c}"
    then show ?thesis using assms(3) by auto
  qed
qed

lemma subset_range_mono:
  fixes a b c :: int
  assumes "A \<subseteq> B \<union> {a..<b}" and "b \<le> c"
  shows "A \<subseteq> B \<union> {a..<c}"
proof
  fix x assume "x \<in> A"
  with assms(1) have "x \<in> B \<or> x \<in> {a..<b}" by blast
  then show "x \<in> B \<union> {a..<c}" using assms(2) by auto
qed

lemma update_session:
  assumes "distinct (dict_keys (tracked_objects self))"
  shows "\<exists>self' outs. update self now dets frame_w frame_h cfg = Inr (self', outs)
     \<and> distinct (dict_keys (tracked_objects self'))
     \<and> next_id self \<le> next_id self'
     \<and> max_distance self' = max_distance self
     \<and> created_ids self now (tracker_min_similarity cfg) (tracker_cooldown cfg) frame_w frame_h {} dets =
         [next_id self .. next_id self' - 1]
     \<and> set (dict_keys (tracked_objects self')) \<subseteq>
         set (dict_keys (tracked_objects self)) \<union> {next_id self ..< next_id self'}
     \<and> set (map det_id outs) \<subseteq>
         set (dict_keys (tracked_objects self)) \<union> {next_id self ..< next_id self'}"
proof -
  from update_props [OF assms, of now cfg frame_w frame_h dets]
  obtain self1 outs where
    m: "match_loop self now (tracker_min_similarity cfg) (tracker_cooldown cfg) frame_w frame_h {} dets =
        Inr (self1, set (map det_id outs), outs)"
    and u: "update self now dets frame_w frame_h cfg =
        Inr (self1\<lparr> tracked_objects :=
               filter (\<lambda>kv. \<not> (fst kv \<notin> set (map det_id outs) \<and>
                                timeout_ms < now - last_seen_ms (snd kv)))
                 (tracked_objects self1) \<rparr>, outs)"
    and d: "distinct (dict_keys (tracked_objects self1))"
    by blast
  from match_loop_props [of self now "tracker_min_similarity cfg" "tracker_cooldown cfg"
      frame_w frame_h "{}" dets] m
  have ks: "set (dict_keys (tracked_objects self1)) =
        set (dict_keys (tracked_objects self)) \<union> set (map det_id outs)"
    and n: "next_id self \<le> next_id self1"
    and md: "max_distance self1 = max_distance self"
    and sub: "set (map det_id outs) \<subseteq> set (dict_keys (tracked_objects self)) \<union> {next_id self ..< next_id self1}"
    and c: "created_ids self now (tracker_min_similarity cfg) (tracker_cooldown cfg) frame_w frame_h {} dets =
        [next_id self .. next_id self1 - 1]"
    by auto
  let ?self' = "self1\<lparr> tracked_objects :=
               filter (\<lambda>kv. \<not> (fst kv \<notin> set (map det_id outs) \<and>
                                timeout_ms < now - last_seen_ms (snd kv)))
                 (tracked_objects self1) \<rparr>"
  have d': "distinct (dict_keys (tracked_objects ?self'))"
    using d by (simp add: dict_keys_def distinct_map_filter)
  have k': "set (dict_keys (tracked_objects ?self')) \<subseteq>
         set (dict_keys (tracked_objects self)) \<union> {next_id self ..< next_id ?self'}"
  proof -
    have "set (dict_keys (tracked_objects ?self')) \<subseteq> set (dict_keys (tracked_objects self1))"
      by (auto simp: dict_keys_def)
    with ks have "set (dict_keys (tracked_objects ?self')) \<subseteq>
        set (dict_keys (tracked_objects self)) \<union> set (map det_id outs)" by simp
    with sub have "set (dict_keys (tracked_objects ?self')) \<subseteq>
        set (dict_keys (tracked_objects self)) \<union> {next_id self ..< next_id self1}" by blast
    then show ?thesis by simp
  qed
  from u d' n md c k' sub show ?thesis
    by (intro exI [of _ ?self'] exI [of _ outs] conjI) simp_all
qed

lemma run_server_frames:
  assumes "distinct (dict_keys (tracked_objects tracker))"
    and "\<forall>e\<in>set es. is_frame e"
  shows "\<exists>tracker' sent. run_server tracker es = Inr (tracker', sent)
     \<and> next_id tracker \<le> next_id tracker'
     \<and> created_in tracker es = [next_id tracker .. next_id tracker' - 1]
     \<and> set (dict_keys (tracked_objects tracker')) \<subseteq>
         set (dict_keys (tracked_objects tracker)) \<union> {next_id tracker ..< next_id tracker'}
     \<and> (\<forall>r\<in>set sent. set (map det_id (snd r)) \<subseteq>
         set (dict_keys (tracked_objects tracker)) \<union> {next_id tracker ..< next_id tracker'})"
  using assms
proof (induction es arbitrary: tracker)
  case Nil
  then show ?case by simp
next
  case (Cons e es)
  from Cons.prems(2) obtain s now ds frame_w frame_h cfg where
    e: "e = Frame s now ds frame_w frame_h cfg"
    by (cases e) auto
  from update_session [OF Cons.prems(1), of now ds frame_w frame_h cfg]
  obtain t1 outs where u: "update tracker now ds frame_w frame_h cfg = Inr (t1, outs)"
    and d1: "distinct (dict_keys (tracked_objects t1))"
    and n1: "next_id tracker \<le> next_id t1"
    and cr1: "created_ids tracker now (tracker_min_similarity cfg) (tracker_cooldown cfg) frame_w frame_h {} ds =
         [next_id tracker .. next_id t1 - 1]"
    and k1: "set (dict_keys (tracked_objects t1)) \<subseteq>
         set (dict_keys (tracked_objects tracker)) \<union> {next_id tracker ..< next_id t1}"
    and o1: "set (map det_id outs) \<subseteq>
         set (dict_keys (tracked_objects tracker)) \<union> {next_id tracker ..< next_id t1}"
    by blast
  from Cons.prems(2) have fr: "\<forall>e\<in>set es. is_frame e" by simp
  from Cons.IH [OF d1 fr]
  obtain t2 sent where r: "run_server t1 es = Inr (t2, sent)"
    and n2: "next_id t1 \<le> next_id t2"
    and cr2: "created_in t1 es = [next_id t1 .. next_id t2 - 1]"
    and k2: "set (dict_keys (tracked_objects t2)) \<subseteq>
         set (dict_keys (tracked_objects t1)) \<union> {next_id t1 ..< next_id t2}"
    and o2: "\<forall>r\<in>set sent. set (map det_id (snd r)) \<subseteq>
         set (dict_keys (tracked_objects t1)) \<union> {next_id t1 ..< next_id t2}"
    by blast
  have run: "run_server tracker (e # es) = Inr (t2, (s, outs) # sent)"
    using e u r by simp
  have n: "next_id tracker \<le> next_id t2" using n1 n2 by simp
  have c: "created_in tracker (e # es) = [next_id tracker .. next_id t2 - 1]"
    using e u cr1 cr2 upto_append_pred [OF n1 n2] by simp
  have k: "set (dict_keys (tracked_objects t2)) \<subseteq>
         set (dict_keys (tracked_objects tracker)) \<union> {next_id tracker ..< next_id t2}"
    by (rule subset_range_trans [OF k1 k2 n1 n2])
  have o: "\<forall>r\<in>set ((s, outs) # sent). set (map det_id (snd r)) \<subseteq>
         set (dict_keys (tracked_objects tracker)) \<union> {next_id tracker ..< next_id t2}"
  proof
    fix r assume "r \<in> set ((s, outs) # sent)"
    then consider "r = (s, outs)" | "r \<in> set sent" by auto
    then show "set (map det_id (snd r)) \<subseteq>
         set (dict_keys (tracked_objects tracker)) \<union> {next_id tracker ..< next_id t2}"
    proof cases
      case 1
      with subset_range_mono [OF o1 n2] show ?thesis by simp
    next
      case 2
      with o2 have "set (map det_id (snd r)) \<subseteq>
         set (dict_keys (tracked_objects t1)) \<union> {next_id t1 ..< next_id t2}" by blast
      from subset_range_trans [OF k1 this n1 n2] show ?thesis .
    qed
  qed
  from run n c k o show ?case
    by (intro exI [of _ t2] exI [of _ "(s, outs) # sent"] conjI)
qed

lemma handle_event_relabel:
  "map_sum id (\<lambda>r. (fst r, map snd (snd r))) (handle_event tracker (relabel f e)) =
   map_sum id (\<lambda>r. (fst r, map snd (snd r))) (handle_event tracker e)"
  by (cases e) (auto split: sum.splits)

section \<open>Strings and the confidence mask\<close>

lemma upper_upper: "to_upper (to_upper c) = to_upper c"
  by (auto simp: to_upper_def is_lower_def)

lemma lower_upper: "to_lower (to_upper c) = to_lower c"
  by (auto simp: to_lower_def to_upper_def is_upper_def is_lower_def)

lemma upper_lower: "to_upper (to_lower c) = to_upper c"
  by (auto simp: to_lower_def to_upper_def is_upper_def is_lower_def)

lemma lower_lower: "to_lower (to_lower c) = to_lower c"
  by (auto simp: to_lower_def is_upper_def)

lemma map_lower_title: "map to_lower (title_from p s) = map to_lower s"
  by (induction s arbitrary: p) (auto simp: lower_upper lower_lower)

lemma capitalize_title: "capitalize (title s) = capitalize s"
  by (cases s) (auto simp: capitalize_def title_def map_lower_title upper_lower upper_upper)

lemma make_detection_fields:
  "det_shape (make_detection x y bw bh conf cid) = det_class_name (make_detection x y bw bh conf cid)"
  "det_label (make_detection x y bw bh conf cid) = title (det_class_name (make_detection x y bw bh conf cid))"
  "det_class_name (make_detection x y bw bh conf cid) =
     (if cid < length COCO_CLASSES then COCO_CLASSES ! cid else ''unknown'')"
  by (simp_all add: make_detection_def Let_def)

lemma mask_select_conf:
  "mask_select confs (conf_mask confs mc) = filter (\<lambda>c. float32 mc < c) confs"
  unfolding mask_select_def conf_mask_def
  by (induction confs) auto

section \<open>Evaluating the examples\<close>

lemmas string_eval = COCO_CLASSES_def title_def capitalize_def is_lower_def is_upper_def
  to_upper_def to_lower_def char_of_def bit_Suc_0_iff

lemma ex_cup_eq: "ex_cup = \<lparr> det_bbox = (95, 93, 20, 20), det_centroid = (105, 103),
   det_color = ''unknown'', det_shape = ''cup'', det_size = ''medium'', det_label = ''Cup'',
   det_similarity = 85, det_area = 400, det_class_name = ''cup'', det_confidence = 85 / 100 \<rparr>"
  unfolding ex_cup_def make_detection_def
  by (simp add: string_eval round1_def Let_def)

lemma ex_cup2_eq: "ex_cup2 = \<lparr> det_bbox = (92, 90, 20, 20), det_centroid = (102, 100),
   det_color = ''unknown'', det_shape = ''cup'', det_size = ''medium'', det_label = ''Cup'',
   det_similarity = 75, det_area = 400, det_class_name = ''cup'', det_confidence = 75 / 100 \<rparr>"
  unfolding ex_cup2_def make_detection_def
  by (simp add: string_eval round1_def Let_def)

lemma ex_dog_eq: "ex_dog = \<lparr> det_bbox = (390, 290, 20, 20), det_centroid = (400, 300),
   det_color = ''unknown'', det_shape = ''dog'', det_size = ''medium'', det_label = ''Dog'',
   det_similarity = 90, det_area = 400, det_class_name = ''dog'', det_confidence = 90 / 100 \<rparr>"
  unfolding ex_dog_def make_detection_def
  by (simp add: string_eval round1_def Let_def)

lemma ex_cup_far_eq: "ex_cup_far = \<lparr> det_bbox = (249, 0, 20, 20), det_centroid = (259, 10),
   det_color = ''unknown'', det_shape = ''cup'', det_size = ''medium'', det_label = ''Cup'',
   det_similarity = 85, det_area = 400, det_class_name = ''cup'', det_confidence = 85 / 100 \<rparr>"
  unfolding ex_cup_far_def make_detection_def
  by (simp add: string_eval round1_def Let_def)

lemmas tracker_eval = find_closest_match_def scaled_max_dist_640 below_min_def
  calculate_distance_less_60 calculate_distance_not_less_60 calculate_distance_not_less
  process_detection_def
  dict_get_def update_def tracker_min_similarity_def tracker_cooldown_def timeout_ms_def
  dict_del_def annotate_def format_spoken_text_def Let_def detection.extend_def
  annotated.fields_def dict_keys_def reset_def module_tracker_def ObjectTracker_init_def
  responses_to_def

section \<open>The claims\<close>

subsection \<open>C1: matching within one frame\<close>

text \<open>
  Claim C1 says that at most one detection of a frame is matched to a given existing
  track. It fails: with track 1 at (100, 100), two detections of one frame at (105, 103)
  and (102, 100) both receive id 1.
\<close>

theorem two_detections_claim_one_track:
  "1 \<in> set (dict_keys (tracked_objects ex_tracker)) \<and>
   map_sum id (map det_id \<circ> snd) (update ex_tracker 1500 [ex_cup, ex_cup2] 640 480 ex_cfg)
     = Inr [1, 1]"
  by (simp add: ex_tracker_def ex_cup_eq ex_cup2_eq ex_cfg_def tracker_eval)

text \<open>
  Claim C1, amended. Each detection is matched to at most one track, but a track can be
  claimed by several detections of one frame: the nearest-track search runs over every
  track in tracker state, whether or not it is already in \<open>matched_ids\<close>. A track that is
  within the scaled distance (as \<open>_find_closest_match\<close> computes it) and already matched
  this frame keeps the detection from
  opening a new track: the detection is matched to a track of the state at least as near,
  and no id is allocated.
\<close>

theorem matched_track_stays_candidate:
  assumes "(tid, obj_data) \<in> set (tracked_objects self)"
    and "calculate_distance (det_centroid d) (centroid obj_data)
           < scaled_max_dist self frame_w"
    and "tid \<in> matched_ids"
  shows "\<exists>self' a nearest.
       process_detection self now min_sim cooldown frame_w frame_h matched_ids d =
         Inr (self', insert (det_id a) matched_ids, a)
     \<and> (det_id a, nearest) \<in> set (tracked_objects self)
     \<and> calculate_distance (det_centroid d) (centroid nearest)
         \<le> calculate_distance (det_centroid d) (centroid obj_data)
     \<and> next_id self' = next_id self
     \<and> dict_keys (tracked_objects self') = dict_keys (tracked_objects self)"
proof -
  have "find_closest_match self (det_centroid d) frame_w frame_h \<noteq> None"
  proof
    assume "find_closest_match self (det_centroid d) frame_w frame_h = None"
    then have "\<forall>kv\<in>set (tracked_objects self).
          \<not> calculate_distance (det_centroid d) (centroid (snd kv)) < scaled_max_dist self frame_w"
      by (simp add: find_closest_match_None)
    with assms(1) have "\<not> calculate_distance (det_centroid d) (centroid (snd (tid, obj_data)))
          < scaled_max_dist self frame_w"
      by blast
    with assms(2) show False by simp
  qed
  then obtain t where s: "find_closest_match self (det_centroid d) frame_w frame_h = Some t"
    by blast
  from find_closest_match_Some [OF s] obtain od where
    od: "(t, od) \<in> set (tracked_objects self)"
      "\<forall>kv\<in>set (tracked_objects self).
          calculate_distance (det_centroid d) (centroid (snd kv)) < scaled_max_dist self frame_w
          \<longrightarrow> calculate_distance (det_centroid d) (centroid od)
                \<le> calculate_distance (det_centroid d) (centroid (snd kv))"
    by blast
  from assms(2) have "calculate_distance (det_centroid d) (centroid (snd (tid, obj_data)))
          < scaled_max_dist self frame_w"
    by simp
  with od(2) assms(1) have "calculate_distance (det_centroid d) (centroid od)
         \<le> calculate_distance (det_centroid d) (centroid (snd (tid, obj_data)))"
    by blast
  then have le: "calculate_distance (det_centroid d) (centroid od)
         \<le> calculate_distance (det_centroid d) (centroid obj_data)"
    by simp
  from process_detection_step [of self now min_sim cooldown frame_w frame_h matched_ids d] s
  obtain self' a where
    p: "process_detection self now min_sim cooldown frame_w frame_h matched_ids d =
               Inr (self', insert (det_id a) matched_ids, a)"
    and i: "det_id a = t" "next_id self' = next_id self"
       "t \<in> set (dict_keys (tracked_objects self))"
    and ks: "dict_keys (tracked_objects self') =
         (if det_id a \<in> set (dict_keys (tracked_objects self)) then dict_keys (tracked_objects self)
          else dict_keys (tracked_objects self) @ [det_id a])"
    by auto
  from ks i have ks': "dict_keys (tracked_objects self') = dict_keys (tracked_objects self)"
    by simp
  from p od(1) le i ks' show ?thesis by blast
qed

theorem matched_track_stays_candidate_witness:
  "(1, \<lparr> centroid = (100, 100), last_seen_ms = 1000, last_spoken_ms = 1000, last_label = ''Cup'' \<rparr>)
      \<in> set (tracked_objects ex_tracker)
   \<and> calculate_distance (det_centroid ex_cup2) (100, 100)
        < scaled_max_dist ex_tracker 640
   \<and> (1::int) \<in> {1}
   \<and> (\<exists>self' a nearest.
         process_detection ex_tracker 1500 70 2000 640 480 {1} ex_cup2 =
           Inr (self', insert (det_id a) {1}, a)
       \<and> (det_id a, nearest) \<in> set (tracked_objects ex_tracker)
       \<and> next_id self' = next_id ex_tracker)"
proof -
  have h1: "(1, \<lparr> centroid = (100, 100), last_seen_ms = 1000, last_spoken_ms = 1000, last_label = ''Cup'' \<rparr>)
      \<in> set (tracked_objects ex_tracker)"
    by (simp add: ex_tracker_def)
  have h2: "calculate_distance (det_centroid ex_cup2)
       (centroid \<lparr> centroid = (100, 100), last_seen_ms = 1000, last_spoken_ms = 1000, last_label = ''Cup'' \<rparr>)
        < scaled_max_dist ex_tracker 640"
    by (simp add: ex_tracker_def ex_cup2_eq scaled_max_dist_640 calculate_distance_less_60)
  have h3: "(1::int) \<in> {1}" by simp
  from matched_track_stays_candidate [OF h1 h2 h3, of 1500 70 2000 480]
  have "\<exists>self' a nearest.
         process_detection ex_tracker 1500 70 2000 640 480 {1} ex_cup2 =
           Inr (self', insert (det_id a) {1}, a)
       \<and> (det_id a, nearest) \<in> set (tracked_objects ex_tracker)
       \<and> next_id self' = next_id ex_tracker"
    by blast
  with h1 h2 h3 show ?thesis by simp
qed

subsection \<open>C2: sessions and the tracker\<close>

text \<open>
  Claim C2 says that every session owns an independent tracker, so that what a session
  receives depends on its own events only. It fails: session 1 sends one frame with one
  detection and receives id 2 when session 2 has connected and sent a frame before, id 1
  when the events of session 2 are left out.
\<close>

theorem sessions_share_tracker:
  "map_sum id (map (map det_id) \<circ> responses_to 1 \<circ> snd)
     (run_server module_tracker
        [Accept 1, Accept 2, Frame 2 1000 [ex_dog] 640 480 ex_cfg, Frame 1 1010 [ex_cup] 640 480 ex_cfg])
     = Inr [[2]]
   \<and> map_sum id (map (map det_id) \<circ> responses_to 1 \<circ> snd)
     (run_server module_tracker
        (filter ((=) 1 \<circ> session_of)
        [Accept 1, Accept 2, Frame 2 1000 [ex_dog] 640 480 ex_cfg, Frame 1 1010 [ex_cup] 640 480 ex_cfg]))
     = Inr [[1]]"
  by (simp add: ex_dog_eq ex_cup_eq ex_cfg_def tracker_eval)

text \<open>
  Claim C2, amended. All connections share the one module-level tracker (its track map
  and its id counter); accepting a connection resets it and every frame of every session
  updates it. The server keeps no state per session: delivering the same events on other
  connections (any renaming \<open>f\<close> of the sessions) gives the same tracker and the same
  responses.
\<close>

theorem run_server_session_blind:
  "map_sum id (\<lambda>r. (fst r, map snd (snd r))) (run_server tracker (map (relabel f) es)) =
   map_sum id (\<lambda>r. (fst r, map snd (snd r))) (run_server tracker es)"
proof (induction es arbitrary: tracker)
  case Nil
  show ?case by simp
next
  case (Cons e es)
  show ?case
  proof (cases "handle_event tracker e")
    case (Inl err)
    with handle_event_relabel [of tracker f e]
    have "handle_event tracker (relabel f e) = Inl err"
      by (cases "handle_event tracker (relabel f e)") auto
    with Inl show ?thesis by simp
  next
    case (Inr r)
    obtain t1 sent where r: "r = (t1, sent)" by (cases r)
    with Inr handle_event_relabel [of tracker f e]
    obtain sent' where h: "handle_event tracker (relabel f e) = Inr (t1, sent')"
      and s: "map snd sent' = map snd sent"
      by (cases "handle_event tracker (relabel f e)") auto
    from Cons.IH [of t1] show ?thesis
      using Inr r h s
      by (cases "run_server t1 es"; cases "run_server t1 (map (relabel f) es)") auto
  qed
qed

subsection \<open>C3: the confidence filter\<close>

text \<open>
  Claim C3 says that a raw detection whose confidence equals the threshold is kept. It
  fails: with \<open>min_similarity = 50\<close> the threshold is 0.5, in binary64 and in binary32
  alike, and a candidate of confidence 0.5 is discarded.
\<close>

theorem confidence_at_threshold_dropped:
  "min_conf \<lparr> min_similarity = Some (PyInt 50), speak_cooldown_ms = None \<rparr> = Inr (1 / 2) \<and>
   float32 (1 / 2) = 1 / 2 \<and>
   filter_step [(320, 240, 50, 50) :: real \<times> real \<times> real \<times> real] [1 / 2] [41]
     \<lparr> min_similarity = Some (PyInt 50), speak_cooldown_ms = None \<rparr> = Inr ([], [], [])"
  by (simp add: filter_step_def min_conf_def int_to_float_def float64_50 float64_half
        float64_three_tenths float32_half conf_mask_def mask_select_def)

text \<open>
  Claim C3, amended. The filter step keeps exactly the raw detections whose confidence is
  strictly greater than the effective threshold, which is \<open>min_conf\<close> rounded to binary32
  (the format of the confidences), in order, and discards those whose confidence is less
  than or equal to it; a detection whose confidence equals that threshold is discarded.
  The three arrays have one entry per candidate, and \<open>min_conf\<close> has been computed.
\<close>

theorem filter_step_strict:
  assumes "length boxes_xywh = length confs" and "length class_ids = length confs"
    and "min_conf cfg = Inr mc"
  shows "\<exists>boxes' confs' class_ids'.
      filter_step boxes_xywh confs class_ids cfg = Inr (boxes', confs', class_ids')
    \<and> zip boxes' (zip confs' class_ids') =
        filter (\<lambda>(box, conf, cid). float32 mc < conf) (zip boxes_xywh (zip confs class_ids))
    \<and> length boxes' = length confs' \<and> length class_ids' = length confs'
    \<and> (\<forall>conf\<in>set confs. conf \<le> float32 mc \<longrightarrow> conf \<notin> set confs')
    \<and> (\<forall>conf\<in>set confs. float32 mc < conf \<longrightarrow> conf \<in> set confs')"
proof -
  let ?msk = "conf_mask confs mc"
  have z: "zip (mask_select boxes_xywh ?msk)
          (zip (mask_select confs ?msk) (mask_select class_ids ?msk))
       = filter (\<lambda>(box, conf, cid). float32 mc < conf) (zip boxes_xywh (zip confs class_ids))
     \<and> length (mask_select boxes_xywh ?msk) = length (mask_select confs ?msk)
     \<and> length (mask_select class_ids ?msk) = length (mask_select confs ?msk)"
    using assms(1) assms(2) [symmetric]
    by (induction boxes_xywh confs class_ids rule: list_induct3)
       (auto simp: mask_select_def conf_mask_def)
  have c: "mask_select confs ?msk = filter (\<lambda>c. float32 mc < c) confs"
    by (rule mask_select_conf)
  have f: "filter_step boxes_xywh confs class_ids cfg =
      Inr (mask_select boxes_xywh ?msk, mask_select confs ?msk, mask_select class_ids ?msk)"
    using assms(3) by (simp add: filter_step_def Let_def)
  have d: "\<forall>conf\<in>set confs. conf \<le> float32 mc \<longrightarrow> conf \<notin> set (mask_select confs ?msk)"
    unfolding c by auto
  have k: "\<forall>conf\<in>set confs. float32 mc < conf \<longrightarrow> conf \<in> set (mask_select confs ?msk)"
    unfolding c by auto
  from f z d k show ?thesis
    by (intro exI [of _ "mask_select boxes_xywh ?msk"] exI [of _ "mask_select confs ?msk"]
          exI [of _ "mask_select class_ids ?msk"] conjI) simp_all
qed

theorem filter_step_strict_witness:
  "length [(320, 240, 50, 50) :: real \<times> real \<times> real \<times> real, (100, 100, 20, 20)]
      = length [1 / 2 :: real, 3 / 4]
   \<and> length [41 :: nat, 16] = length [1 / 2 :: real, 3 / 4]
   \<and> min_conf \<lparr> min_similarity = Some (PyInt 50), speak_cooldown_ms = None \<rparr> = Inr (1 / 2)
   \<and> filter_step [(320, 240, 50, 50) :: real \<times> real \<times> real \<times> real, (100, 100, 20, 20)]
       [1 / 2, 3 / 4] [41, 16]
       \<lparr> min_similarity = Some (PyInt 50), speak_cooldown_ms = None \<rparr>
       = Inr ([(100, 100, 20, 20)], [3 / 4], [16])"
proof -
  have m: "min_conf \<lparr> min_similarity = Some (PyInt 50), speak_cooldown_ms = None \<rparr> = Inr (1 / 2)"
    by (simp add: min_conf_def int_to_float_def float64_50 float64_half float64_three_tenths)
  from filter_step_strict [of "[(320, 240, 50, 50) :: real \<times> real \<times> real \<times> real, (100, 100, 20, 20)]"
      "[1 / 2, 3 / 4]" "[41, 16]"
      "\<lparr> min_similarity = Some (PyInt 50), speak_cooldown_ms = None \<rparr>" "1 / 2", OF _ _ m]
  obtain boxes' confs' class_ids' where
    f: "filter_step [(320, 240, 50, 50) :: real \<times> real \<times> real \<times> real, (100, 100, 20, 20)]
       [1 / 2, 3 / 4] [41, 16]
       \<lparr> min_similarity = Some (PyInt 50), speak_cooldown_ms = None \<rparr>
       = Inr (boxes', confs', class_ids')"
    and z: "zip boxes' (zip confs' class_ids') =
        filter (\<lambda>(box, conf, cid). float32 (1 / 2) < conf)
          (zip [(320, 240, 50, 50), (100, 100, 20, 20)] (zip [1 / 2, 3 / 4] [41, 16]))"
    and l: "length boxes' = length confs'" "length class_ids' = length confs'"
    by auto
  from z have z': "zip boxes' (zip confs' class_ids') = [((100, 100, 20, 20), 3 / 4, 16)]"
    by (simp add: float32_half)
  from l z' have "boxes' = [(100, 100, 20, 20)] \<and> confs' = [3 / 4] \<and> class_ids' = [16]"
    by (cases boxes'; cases confs'; cases class_ids') auto
  with f m show ?thesis by simp
qed

subsection \<open>C4: the confidence floor\<close>




subsection \<open>C5: the speak rule on a matched track\<close>



subsection \<open>C6: expiry\<close>

text \<open>
  Claim C6. Every call of \<open>update\<close> returns and, after the matching loop, removes exactly
  the tracks that are not in \<open>matched_ids\<close> and were last seen more than 1000 ms ago; the
  other tracks stay, in order. The ids matched in this call are the ids of the returned
  detections, and all of them are still tracked afterwards. With an empty detection list
  the matching loop changes nothing and expiry still runs.
\<close>

theorem update_expiry:
  assumes "distinct (dict_keys (tracked_objects self))"
  shows "\<exists>self1 matched_ids outs self'.
      match_loop self now (tracker_min_similarity cfg) (tracker_cooldown cfg) frame_w frame_h {} dets =
        Inr (self1, matched_ids, outs)
    \<and> update self now dets frame_w frame_h cfg = Inr (self', outs)
    \<and> tracked_objects self' =
        filter (\<lambda>(obj_id, obj_data). \<not> (obj_id \<notin> matched_ids \<and> now - last_seen_ms obj_data > 1000))
          (tracked_objects self1)
    \<and> matched_ids = set (map det_id outs)
    \<and> matched_ids \<subseteq> set (dict_keys (tracked_objects self'))
    \<and> (dets = [] \<longrightarrow> self1 = self \<and> matched_ids = {})"
proof -
  from update_props [OF assms, of now cfg frame_w frame_h dets]
  obtain self1 outs where
    m: "match_loop self now (tracker_min_similarity cfg) (tracker_cooldown cfg) frame_w frame_h {} dets =
        Inr (self1, set (map det_id outs), outs)"
    and u: "update self now dets frame_w frame_h cfg =
        Inr (self1\<lparr> tracked_objects :=
               filter (\<lambda>kv. \<not> (fst kv \<notin> set (map det_id outs) \<and>
                                timeout_ms < now - last_seen_ms (snd kv)))
                 (tracked_objects self1) \<rparr>, outs)"
    by blast
  from match_loop_props [of self now "tracker_min_similarity cfg" "tracker_cooldown cfg"
      frame_w frame_h "{}" dets] m
  have ks: "set (dict_keys (tracked_objects self1)) =
        set (dict_keys (tracked_objects self)) \<union> set (map det_id outs)"
    by auto
  let ?self' = "self1\<lparr> tracked_objects :=
               filter (\<lambda>kv. \<not> (fst kv \<notin> set (map det_id outs) \<and>
                                timeout_ms < now - last_seen_ms (snd kv)))
                 (tracked_objects self1) \<rparr>"
  have f: "tracked_objects ?self' =
        filter (\<lambda>(obj_id, obj_data). \<not> (obj_id \<notin> set (map det_id outs) \<and> now - last_seen_ms obj_data > 1000))
          (tracked_objects self1)"
    by (simp add: timeout_ms_def case_prod_unfold)
  have sub: "set (map det_id outs) \<subseteq> set (dict_keys (tracked_objects ?self'))"
  proof
    fix k assume k: "k \<in> set (map det_id outs)"
    with ks have "k \<in> set (dict_keys (tracked_objects self1))" by blast
    then obtain v where "(k, v) \<in> set (tracked_objects self1)"
      by (auto simp: dict_keys_def)
    with k show "k \<in> set (dict_keys (tracked_objects ?self'))"
      by (force simp: dict_keys_def)
  qed
  have e: "dets = [] \<longrightarrow> self1 = self \<and> set (map det_id outs) = {}"
    using m by auto
  from m u f sub e show ?thesis
    by (intro exI [of _ self1] exI [of _ "set (map det_id outs)"] exI [of _ outs]
          exI [of _ ?self'] conjI refl)
qed

theorem update_expiry_witness:
  "distinct (dict_keys (tracked_objects ex_tracker))
   \<and> (\<exists>self' outs. update ex_tracker 1500 [ex_cup] 640 480 ex_cfg = Inr (self', outs)
        \<and> map det_id outs = [1]
        \<and> dict_keys (tracked_objects self') = [1])
   \<and> (\<exists>self'. update ex_tracker 1500 [] 640 480 ex_cfg = Inr (self', [])
        \<and> dict_keys (tracked_objects self') = [1])"
proof -
  have h: "distinct (dict_keys (tracked_objects ex_tracker))"
    by (simp add: ex_tracker_def dict_keys_def)
  have m: "match_loop ex_tracker 1500 (tracker_min_similarity ex_cfg) (tracker_cooldown ex_cfg) 640 480 {} [ex_cup]
     = Inr (ex_tracker\<lparr> tracked_objects := dict_set (tracked_objects ex_tracker) 1
              \<lparr> centroid = (105, 103), last_seen_ms = 1500, last_spoken_ms = 1000, last_label = ''Cup'' \<rparr> \<rparr>,
            {1}, [annotate ex_cup 1 False])"
    by (simp add: ex_tracker_def ex_cup_eq ex_cfg_def find_closest_match_def scaled_max_dist_640
          below_min_def calculate_distance_less_60 calculate_distance_not_less_60
          calculate_distance_not_less
          process_detection_def dict_get_def tracker_min_similarity_def tracker_cooldown_def Let_def)
  from update_expiry [OF h, of 1500 ex_cfg 640 480 "[ex_cup]"] m
  have a: "\<exists>self' outs. update ex_tracker 1500 [ex_cup] 640 480 ex_cfg = Inr (self', outs)
        \<and> map det_id outs = [1]
        \<and> dict_keys (tracked_objects self') = [1]"
    by (auto simp: det_id_annotate ex_tracker_def dict_keys_def)
  from update_expiry [OF h, of 1500 ex_cfg 640 480 "[]"]
  have b: "\<exists>self'. update ex_tracker 1500 [] 640 480 ex_cfg = Inr (self', [])
        \<and> dict_keys (tracked_objects self') = [1]"
    by (auto simp: ex_tracker_def dict_keys_def)
  from h a b show ?thesis by blast
qed

subsection \<open>C7: the distance bound\<close>

text \<open>
  Claim C7 says that a detection is matched only if the distance is strictly less than
  \<open>max_distance * (frame_w / 640)\<close>. It fails on a frame 2656 pixels wide: the product is
  249, the code computes \<open>60 * (2656 / 640.0)\<close> in doubles as 249 + 2^-45, and a detection
  whose centroid (259, 10) is at distance exactly 249 from track 1 at (10, 10) is matched
  to it.
\<close>

theorem match_at_exact_product:
  "sqrt (real_of_int ((259 - 10)\<^sup>2 + (10 - 10)\<^sup>2)) = 249
   \<and> calculate_distance (det_centroid ex_cup_far) (10, 10) = 249
   \<and> real_of_int (max_distance ex_wide_tracker) * (2656 / 640) = 249
   \<and> find_closest_match ex_wide_tracker (det_centroid ex_cup_far) 2656 1494 = Some 1
   \<and> map_sum id (map det_id \<circ> snd)
        (update ex_wide_tracker 1500 [ex_cup_far] 2656 1494 ex_cfg) = Inr [1]"
proof -
  have e: "sqrt (real_of_int ((259 - 10)\<^sup>2 + (10 - 10)\<^sup>2)) = 249"
    by (simp add: real_sqrt_unique)
  note a' = calculate_distance_249
  then have a: "calculate_distance (det_centroid ex_cup_far) (10, 10) = 249"
    by (simp add: ex_cup_far_eq)
  have b: "real_of_int (max_distance ex_wide_tracker) * (2656 / 640) = 249"
    by (simp add: ex_wide_tracker_def)
  have c: "find_closest_match ex_wide_tracker (det_centroid ex_cup_far) 2656 1494 = Some 1"
    by (simp add: ex_wide_tracker_def ex_cup_far_eq find_closest_match_def scaled_max_dist_2656
          below_min_def a' Let_def)
  have d: "map_sum id (map det_id \<circ> snd)
        (update ex_wide_tracker 1500 [ex_cup_far] 2656 1494 ex_cfg) = Inr [1]"
    by (simp add: ex_wide_tracker_def ex_cup_far_eq ex_cfg_def find_closest_match_def
          scaled_max_dist_2656 below_min_def a' process_detection_def dict_get_def update_def
          tracker_min_similarity_def tracker_cooldown_def timeout_ms_def dict_del_def
          annotate_def format_spoken_text_def Let_def detection.extend_def
          annotated.fields_def dict_keys_def)
  from e a b c d show ?thesis by simp
qed

text \<open>
  Claim C7, amended. A detection is matched to a track only if the distance of their
  centroids, as \<open>_calculate_distance\<close> returns it, is strictly less than the double that
  \<open>max_distance * (frame_w / 640.0)\<close> computes, the quotient and the product each rounded
  to the nearest double (a bound that can exceed the exact product: 249 + 2^-45 at width
  2656). The matched track is at minimum distance
  among the tracks within that bound, and the detection takes its id without a new id or
  key. No track is selected exactly when no track is within that bound, and then a new
  track is stored under \<open>next_id\<close>.
\<close>

theorem closest_match_within_scaled_distance:
  "scaled_max_dist self frame_w =
     float64 (float64 (of_int (max_distance self)) * float64 (float64 (of_int frame_w) / 640))
 \<and> (\<forall>tid. find_closest_match self (det_centroid d) frame_w frame_h = Some tid \<longrightarrow>
      (\<exists>obj_data a self' matched'.
          (tid, obj_data) \<in> set (tracked_objects self)
        \<and> calculate_distance (det_centroid d) (centroid obj_data)
            < scaled_max_dist self frame_w
        \<and> (\<forall>(k, other) \<in> set (tracked_objects self).
              calculate_distance (det_centroid d) (centroid other)
                < scaled_max_dist self frame_w
              \<longrightarrow> calculate_distance (det_centroid d) (centroid obj_data)
                    \<le> calculate_distance (det_centroid d) (centroid other))
        \<and> process_detection self now min_sim cooldown frame_w frame_h matched_ids d =
            Inr (self', matched', a)
        \<and> det_id a = tid \<and> next_id self' = next_id self
        \<and> dict_keys (tracked_objects self') = dict_keys (tracked_objects self)))
 \<and> ((find_closest_match self (det_centroid d) frame_w frame_h = None) =
      (\<forall>(k, other) \<in> set (tracked_objects self).
          \<not> calculate_distance (det_centroid d) (centroid other)
              < scaled_max_dist self frame_w))
 \<and> (find_closest_match self (det_centroid d) frame_w frame_h = None \<longrightarrow>
      (\<exists>a self' matched'.
          process_detection self now min_sim cooldown frame_w frame_h matched_ids d =
            Inr (self', matched', a)
        \<and> det_id a = next_id self \<and> next_id self' = next_id self + 1
        \<and> tracked_objects self' =
            dict_set (tracked_objects self) (next_id self)
              \<lparr> centroid = det_centroid d, last_seen_ms = now,
                 last_spoken_ms = (if min_sim \<le> det_similarity d then now else 0),
                 last_label = det_label d \<rparr>))"
proof (intro conjI allI impI)
  show "scaled_max_dist self frame_w =
     float64 (float64 (of_int (max_distance self)) * float64 (float64 (of_int frame_w) / 640))"
    by (rule scaled_max_dist_def)
next
  fix tid
  assume s: "find_closest_match self (det_centroid d) frame_w frame_h = Some tid"
  from find_closest_match_Some [OF s] obtain od where
    od: "(tid, od) \<in> set (tracked_objects self)"
      "calculate_distance (det_centroid d) (centroid od) < scaled_max_dist self frame_w"
      "\<forall>kv\<in>set (tracked_objects self).
          calculate_distance (det_centroid d) (centroid (snd kv)) < scaled_max_dist self frame_w
          \<longrightarrow> calculate_distance (det_centroid d) (centroid od)
                \<le> calculate_distance (det_centroid d) (centroid (snd kv))"
    by blast
  from process_detection_step [of self now min_sim cooldown frame_w frame_h matched_ids d] s
  obtain self' a where
    p: "process_detection self now min_sim cooldown frame_w frame_h matched_ids d =
               Inr (self', insert (det_id a) matched_ids, a)"
    and i: "det_id a = tid" "next_id self' = next_id self"
       "tid \<in> set (dict_keys (tracked_objects self))"
    and ks: "dict_keys (tracked_objects self') =
         (if det_id a \<in> set (dict_keys (tracked_objects self)) then dict_keys (tracked_objects self)
          else dict_keys (tracked_objects self) @ [det_id a])"
    by auto
  from ks i have ks': "dict_keys (tracked_objects self') = dict_keys (tracked_objects self)"
    by simp
  from od p i ks' show "\<exists>obj_data a self' matched'.
          (tid, obj_data) \<in> set (tracked_objects self)
        \<and> calculate_distance (det_centroid d) (centroid obj_data)
            < scaled_max_dist self frame_w
        \<and> (\<forall>(k, other) \<in> set (tracked_objects self).
              calculate_distance (det_centroid d) (centroid other)
                < scaled_max_dist self frame_w
              \<longrightarrow> calculate_distance (det_centroid d) (centroid obj_data)
                    \<le> calculate_distance (det_centroid d) (centroid other))
        \<and> process_detection self now min_sim cooldown frame_w frame_h matched_ids d =
            Inr (self', matched', a)
        \<and> det_id a = tid \<and> next_id self' = next_id self
        \<and> dict_keys (tracked_objects self') = dict_keys (tracked_objects self)"
    unfolding case_prod_unfold by blast
next
  show "(find_closest_match self (det_centroid d) frame_w frame_h = None) =
      (\<forall>(k, other) \<in> set (tracked_objects self).
          \<not> calculate_distance (det_centroid d) (centroid other)
              < scaled_max_dist self frame_w)"
    by (simp add: find_closest_match_None case_prod_unfold)
next
  assume n: "find_closest_match self (det_centroid d) frame_w frame_h = None"
  show "\<exists>a self' matched'.
          process_detection self now min_sim cooldown frame_w frame_h matched_ids d =
            Inr (self', matched', a)
        \<and> det_id a = next_id self \<and> next_id self' = next_id self + 1
        \<and> tracked_objects self' =
            dict_set (tracked_objects self) (next_id self)
              \<lparr> centroid = det_centroid d, last_seen_ms = now,
                 last_spoken_ms = (if min_sim \<le> det_similarity d then now else 0),
                 last_label = det_label d \<rparr>"
    unfolding process_detection_new [OF n]
    by (simp add: det_id_annotate)
qed

theorem closest_match_within_scaled_distance_witness:
  "scaled_max_dist ex_tracker 640 = 60
   \<and> scaled_max_dist ex_wide_tracker 2656 = 8760908650119169 / 35184372088832
   \<and> find_closest_match ex_tracker (det_centroid ex_cup) 640 480 = Some 1
   \<and> (\<exists>obj_data a self' matched'.
          (1, obj_data) \<in> set (tracked_objects ex_tracker)
        \<and> calculate_distance (det_centroid ex_cup) (centroid obj_data) < 60
        \<and> process_detection ex_tracker 1500 70 2000 640 480 {} ex_cup = Inr (self', matched', a)
        \<and> det_id a = 1 \<and> next_id self' = 3)
   \<and> find_closest_match ex_tracker (det_centroid ex_dog) 640 480 = None
   \<and> (\<exists>a self' matched'.
          process_detection ex_tracker 1500 70 2000 640 480 {} ex_dog = Inr (self', matched', a)
        \<and> det_id a = 3 \<and> next_id self' = 4
        \<and> dict_keys (tracked_objects self') = [1, 2, 3])"
proof -
  have s1: "scaled_max_dist ex_tracker 640 = 60"
    by (simp add: scaled_max_dist_640 ex_tracker_def)
  have s2: "scaled_max_dist ex_wide_tracker 2656 = 8760908650119169 / 35184372088832"
    by (simp add: scaled_max_dist_2656 ex_wide_tracker_def)
  have h1: "find_closest_match ex_tracker (det_centroid ex_cup) 640 480 = Some 1"
    by (simp add: ex_tracker_def ex_cup_eq tracker_eval)
  have h2: "find_closest_match ex_tracker (det_centroid ex_dog) 640 480 = None"
    by (simp add: ex_tracker_def ex_dog_eq tracker_eval)
  have e: "next_id ex_tracker = 3"
    by (simp add: ex_tracker_def)
  note w1 = closest_match_within_scaled_distance
    [of ex_tracker 640 ex_cup 480 1500 70 2000 "{}", unfolded h1 s1 e, THEN conjunct2]
  note w2 = closest_match_within_scaled_distance
    [of ex_tracker 640 ex_dog 480 1500 70 2000 "{}", unfolded h2 s1 e, THEN conjunct2]
  from w1 have a: "\<exists>obj_data a self' matched'.
          (1, obj_data) \<in> set (tracked_objects ex_tracker)
        \<and> calculate_distance (det_centroid ex_cup) (centroid obj_data) < 60
        \<and> process_detection ex_tracker 1500 70 2000 640 480 {} ex_cup = Inr (self', matched', a)
        \<and> det_id a = 1 \<and> next_id self' = 3"
    by simp blast
  from w2 have c: "\<exists>a self' matched'.
          process_detection ex_tracker 1500 70 2000 640 480 {} ex_dog = Inr (self', matched', a)
        \<and> det_id a = 3 \<and> next_id self' = 4
        \<and> dict_keys (tracked_objects self') = [1, 2, 3]"
    by (auto simp: ex_tracker_def dict_keys_def)
  from s1 s2 h1 a h2 c show ?thesis by blast
qed

subsection \<open>C8: id allocation\<close>

text \<open>
  Claim C8. \<open>reset\<close> clears the tracks and sets the counter to 1. Over any sequence of
  frames after a reset, the new tracks receive the ids 1, 2, 3, ... in order of creation
  (so no id is given twice, whatever was removed in between), the counter is one more
  than the last id given, and every tracked or returned id lies between 1 and the
  counter.
\<close>

theorem session_ids_sequential:
  assumes "list_all is_frame es"
  shows "next_id (reset tracker) = 1 \<and> tracked_objects (reset tracker) = []
     \<and> (\<exists>tracker' sent. run_server (reset tracker) es = Inr (tracker', sent)
          \<and> created_in (reset tracker) es = [1 .. next_id tracker' - 1]
          \<and> set (dict_keys (tracked_objects tracker')) \<subseteq> {1 ..< next_id tracker'}
          \<and> (\<forall>(s, out)\<in>set sent. \<forall>a\<in>set out. 1 \<le> det_id a \<and> det_id a < next_id tracker'))"
proof -
  have d: "distinct (dict_keys (tracked_objects (reset tracker)))"
    by (simp add: reset_def dict_keys_def)
  from run_server_frames [OF d assms [unfolded list_all_iff]]
  obtain tracker' sent where r: "run_server (reset tracker) es = Inr (tracker', sent)"
    and c: "created_in (reset tracker) es = [next_id (reset tracker) .. next_id tracker' - 1]"
    and k: "set (dict_keys (tracked_objects tracker')) \<subseteq>
         set (dict_keys (tracked_objects (reset tracker))) \<union> {next_id (reset tracker) ..< next_id tracker'}"
    and o: "\<forall>r\<in>set sent. set (map det_id (snd r)) \<subseteq>
         set (dict_keys (tracked_objects (reset tracker))) \<union> {next_id (reset tracker) ..< next_id tracker'}"
    by blast
  have n: "next_id (reset tracker) = 1" and t: "tracked_objects (reset tracker) = []"
    by (simp_all add: reset_def)
  have o': "\<forall>(s, out)\<in>set sent. \<forall>a\<in>set out. 1 \<le> det_id a \<and> det_id a < next_id tracker'"
    using o by (fastforce simp: n t dict_keys_def)
  from r c k o' show ?thesis
    by (auto simp: n t dict_keys_def)
qed

theorem session_ids_sequential_witness:
  "list_all is_frame
      [Frame 1 1000 [ex_cup, ex_dog] 640 480 ex_cfg, Frame 1 3000 [ex_cup] 640 480 ex_cfg,
       Frame 1 3100 [ex_dog] 640 480 ex_cfg]
   \<and> (\<exists>tracker' sent.
         run_server (reset ex_tracker)
           [Frame 1 1000 [ex_cup, ex_dog] 640 480 ex_cfg, Frame 1 3000 [ex_cup] 640 480 ex_cfg,
            Frame 1 3100 [ex_dog] 640 480 ex_cfg] = Inr (tracker', sent)
       \<and> map (map det_id \<circ> snd) sent = [[1, 2], [1], [3]]
       \<and> next_id tracker' = 4
       \<and> created_in (reset ex_tracker)
           [Frame 1 1000 [ex_cup, ex_dog] 640 480 ex_cfg, Frame 1 3000 [ex_cup] 640 480 ex_cfg,
            Frame 1 3100 [ex_dog] 640 480 ex_cfg] = [1, 2, 3])"
proof -
  let ?es = "[Frame 1 1000 [ex_cup, ex_dog] 640 480 ex_cfg, Frame 1 3000 [ex_cup] 640 480 ex_cfg,
               Frame 1 3100 [ex_dog] 640 480 ex_cfg]"
  have h: "list_all is_frame ?es" by simp
  have r: "map_sum id (\<lambda>r. (next_id (fst r), map (map det_id \<circ> snd) (snd r)))
             (run_server (reset ex_tracker) ?es) = Inr (4, [[1, 2], [1], [3]])"
    by (simp add: ex_tracker_def ex_cup_eq ex_dog_eq ex_cfg_def tracker_eval)
  from session_ids_sequential [OF h, of ex_tracker]
  obtain tracker' sent where
    run: "run_server (reset ex_tracker) ?es = Inr (tracker', sent)"
    and cr: "created_in (reset ex_tracker) ?es = [1 .. next_id tracker' - 1]"
    by blast
  from r run have n: "next_id tracker' = 4" and s: "map (map det_id \<circ> snd) sent = [[1, 2], [1], [3]]"
    by simp_all
  have "[1 .. (4::int) - 1] = [1, 2, 3]" by (simp add: upto_rec1)
  with cr n have "created_in (reset ex_tracker) ?es = [1, 2, 3]" by simp
  with h run n s show ?thesis
    by (intro conjI exI [of _ tracker'] exI [of _ sent])
qed

subsection \<open>C9: the spoken text\<close>

text \<open>
  Claim C9. \<open>format_spoken_text\<close> does not depend on its colour, size and similarity
  arguments. For the detections that \<open>detect_objects\<close> builds, the \<open>spoken_text\<close> that
  \<open>update\<close> attaches is the capitalized class name, which is also the capitalized
  \<open>label\<close>.
\<close>

theorem spoken_text_capitalized_class:
  assumes "distinct (dict_keys (tracked_objects self))"
  shows "format_spoken_text color shape sz similarity = format_spoken_text color' shape sz' similarity'
     \<and> format_spoken_text color shape sz similarity = capitalize shape
     \<and> (\<exists>self' outs.
           update self now
             (map (\<lambda>(x, y, bw, bh, conf, cid). make_detection x y bw bh conf cid) kept)
             frame_w frame_h cfg = Inr (self', outs)
         \<and> length outs = length kept
         \<and> (\<forall>i<length kept.
               spoken_text (outs ! i) = capitalize (det_class_name (outs ! i))
             \<and> spoken_text (outs ! i) = capitalize (det_label (outs ! i))
             \<and> det_class_name (outs ! i) =
                 (case kept ! i of (x, y, bw, bh, conf, cid) \<Rightarrow>
                    if cid < length COCO_CLASSES then COCO_CLASSES ! cid else ''unknown'')))"
proof -
  let ?dets = "map (\<lambda>(x, y, bw, bh, conf, cid). make_detection x y bw bh conf cid) kept"
  from update_props [OF assms, of now cfg frame_w frame_h ?dets]
  obtain self1 outs where
    m: "match_loop self now (tracker_min_similarity cfg) (tracker_cooldown cfg) frame_w frame_h {} ?dets =
        Inr (self1, set (map det_id outs), outs)"
    and u: "update self now ?dets frame_w frame_h cfg =
        Inr (self1\<lparr> tracked_objects :=
               filter (\<lambda>kv. \<not> (fst kv \<notin> set (map det_id outs) \<and>
                                timeout_ms < now - last_seen_ms (snd kv)))
                 (tracked_objects self1) \<rparr>, outs)"
    by blast
  from match_loop_props [of self now "tracker_min_similarity cfg" "tracker_cooldown cfg"
      frame_w frame_h "{}" ?dets] m
  have t: "map detection.truncate outs = ?dets"
    and sp: "map spoken_text outs = map (\<lambda>d. capitalize (det_shape d)) ?dets"
    by auto
  from t have l: "length outs = length kept" by (metis length_map)
  have a: "\<forall>i<length kept.
               spoken_text (outs ! i) = capitalize (det_class_name (outs ! i))
             \<and> spoken_text (outs ! i) = capitalize (det_label (outs ! i))
             \<and> det_class_name (outs ! i) =
                 (case kept ! i of (x, y, bw, bh, conf, cid) \<Rightarrow>
                    if cid < length COCO_CLASSES then COCO_CLASSES ! cid else ''unknown'')"
  proof (intro allI impI)
    fix i assume i: "i < length kept"
    obtain x y bw bh conf cid where k: "kept ! i = (x, y, bw, bh, conf, cid)"
      by (metis prod_cases6)
    from i k have di: "?dets ! i = make_detection x y bw bh conf cid" by simp
    from i l t have tr: "detection.truncate (outs ! i) = ?dets ! i"
      by (metis nth_map)
    from i l sp have "spoken_text (outs ! i) = capitalize (det_shape (?dets ! i))"
      by (metis (no_types, lifting) length_map nth_map)
    then have s: "spoken_text (outs ! i) = capitalize (det_class_name (make_detection x y bw bh conf cid))"
      using di by (simp add: make_detection_fields)
    have "det_class_name (detection.truncate (outs ! i)) = det_class_name (outs ! i)"
      "det_label (detection.truncate (outs ! i)) = det_label (outs ! i)"
      by (simp_all add: detection.truncate_def)
    with tr di have f: "det_class_name (outs ! i) = det_class_name (make_detection x y bw bh conf cid)"
      "det_label (outs ! i) = det_label (make_detection x y bw bh conf cid)"
      by simp_all
    show "spoken_text (outs ! i) = capitalize (det_class_name (outs ! i))
             \<and> spoken_text (outs ! i) = capitalize (det_label (outs ! i))
             \<and> det_class_name (outs ! i) =
                 (case kept ! i of (x, y, bw, bh, conf, cid) \<Rightarrow>
                    if cid < length COCO_CLASSES then COCO_CLASSES ! cid else ''unknown'')"
      using s f k by (simp add: make_detection_fields capitalize_title)
  qed
  have "format_spoken_text color shape sz similarity = format_spoken_text color' shape sz' similarity'"
    "format_spoken_text color shape sz similarity = capitalize shape"
    by (simp_all add: format_spoken_text_def)
  with u l a show ?thesis by blast
qed

theorem spoken_text_capitalized_class_witness:
  "distinct (dict_keys (tracked_objects ex_tracker))
   \<and> format_spoken_text ''unknown'' ''traffic light'' ''medium'' 85 =
       format_spoken_text ''red'' ''traffic light'' ''large'' 10
   \<and> (\<exists>self' outs.
         update ex_tracker 1500 [make_detection 95 93 20 20 (85 / 100) 9] 640 480 ex_cfg = Inr (self', outs)
       \<and> map spoken_text outs = [''Traffic light''])"
proof -
  have h: "distinct (dict_keys (tracked_objects ex_tracker))"
    by (simp add: ex_tracker_def dict_keys_def)
  have t: "capitalize (COCO_CLASSES ! 9) = ''Traffic light''"
    by (simp add: string_eval)
  note w = spoken_text_capitalized_class [OF h, of "''unknown''" "''traffic light''" "''medium''" 85 "''red''" "''large''" 10
      1500 "[(95, 93, 20, 20, 85 / 100, 9)]" 640 480 ex_cfg]
  from w have f: "format_spoken_text ''unknown'' ''traffic light'' ''medium'' 85 =
       format_spoken_text ''red'' ''traffic light'' ''large'' 10"
    by (rule conjunct1)
  from w obtain self' outs where
    u: "update ex_tracker 1500 [make_detection 95 93 20 20 (85 / 100) 9] 640 480 ex_cfg = Inr (self', outs)"
    and l: "length outs = 1"
    and s: "spoken_text (outs ! 0) = capitalize (det_class_name (outs ! 0))"
       "det_class_name (outs ! 0) = COCO_CLASSES ! 9"
    by (auto simp: COCO_CLASSES_def)
  from l obtain a where o: "outs = [a]"
    by (cases outs) auto
  from s t o have "map spoken_text outs = [''Traffic light'']" by simp
  with h f u show ?thesis
    by (intro conjI exI [of _ self'] exI [of _ outs])
qed

subsection \<open>C10: the returned list\<close>

text \<open>
  Claim C10. \<open>update\<close> returns one element per input detection, in the same order, and
  each element is the input detection with \<open>id\<close>, \<open>should_speak\<close> and \<open>spoken_text\<close>
  added: dropping the three added fields gives back the input, so \<open>bbox\<close>, \<open>centroid\<close>,
  \<open>label\<close> and \<open>similarity\<close> are unchanged.
\<close>

theorem update_annotates_in_order:
  assumes "distinct (dict_keys (tracked_objects self))"
  shows "\<exists>self' outs. update self now dets frame_w frame_h cfg = Inr (self', outs)
     \<and> length outs = length dets
     \<and> map detection.truncate outs = dets
     \<and> (\<forall>i<length dets.
           det_bbox (outs ! i) = det_bbox (dets ! i)
         \<and> det_centroid (outs ! i) = det_centroid (dets ! i)
         \<and> det_label (outs ! i) = det_label (dets ! i)
         \<and> det_similarity (outs ! i) = det_similarity (dets ! i))"
proof -
  from update_props [OF assms, of now cfg frame_w frame_h dets]
  obtain self1 outs where
    m: "match_loop self now (tracker_min_similarity cfg) (tracker_cooldown cfg) frame_w frame_h {} dets =
        Inr (self1, set (map det_id outs), outs)"
    and u: "update self now dets frame_w frame_h cfg =
        Inr (self1\<lparr> tracked_objects :=
               filter (\<lambda>kv. \<not> (fst kv \<notin> set (map det_id outs) \<and>
                                timeout_ms < now - last_seen_ms (snd kv)))
                 (tracked_objects self1) \<rparr>, outs)"
    by blast
  from match_loop_props [of self now "tracker_min_similarity cfg" "tracker_cooldown cfg"
      frame_w frame_h "{}" dets] m
  have t: "map detection.truncate outs = dets" by auto
  then have l: "length outs = length dets" by (metis length_map)
  have "\<forall>i<length dets.
           det_bbox (outs ! i) = det_bbox (dets ! i)
         \<and> det_centroid (outs ! i) = det_centroid (dets ! i)
         \<and> det_label (outs ! i) = det_label (dets ! i)
         \<and> det_similarity (outs ! i) = det_similarity (dets ! i)"
  proof (intro allI impI)
    fix i assume i: "i < length dets"
    with l t have "dets ! i = detection.truncate (outs ! i)"
      by (metis nth_map)
    then show "det_bbox (outs ! i) = det_bbox (dets ! i)
         \<and> det_centroid (outs ! i) = det_centroid (dets ! i)
         \<and> det_label (outs ! i) = det_label (dets ! i)
         \<and> det_similarity (outs ! i) = det_similarity (dets ! i)"
      by (simp add: detection.truncate_def)
  qed
  with u t l show ?thesis by blast
qed

theorem update_annotates_in_order_witness:
  "distinct (dict_keys (tracked_objects ex_tracker))
   \<and> (\<exists>self' outs. update ex_tracker 1500 [ex_cup, ex_dog] 640 480 ex_cfg = Inr (self', outs)
        \<and> map detection.truncate outs = [ex_cup, ex_dog]
        \<and> map det_centroid outs = [(105, 103), (400, 300)])"
proof -
  have h: "distinct (dict_keys (tracked_objects ex_tracker))"
    by (simp add: ex_tracker_def dict_keys_def)
  from update_annotates_in_order [OF h, of 1500 "[ex_cup, ex_dog]" 640 480 ex_cfg]
  obtain self' outs where
    u: "update ex_tracker 1500 [ex_cup, ex_dog] 640 480 ex_cfg = Inr (self', outs)"
    and l: "length outs = length [ex_cup, ex_dog]"
    and t: "map detection.truncate outs = [ex_cup, ex_dog]"
    and f: "\<forall>i<length [ex_cup, ex_dog].
           det_bbox (outs ! i) = det_bbox ([ex_cup, ex_dog] ! i)
         \<and> det_centroid (outs ! i) = det_centroid ([ex_cup, ex_dog] ! i)
         \<and> det_label (outs ! i) = det_label ([ex_cup, ex_dog] ! i)
         \<and> det_similarity (outs ! i) = det_similarity ([ex_cup, ex_dog] ! i)"
    by (elim exE conjE) (rule that)
  from l obtain a b where o: "outs = [a, b]"
    by (cases outs; cases "tl outs") auto
  from f [rule_format, of 0] f [rule_format, of 1] o
  have "map det_centroid outs = [(105, 103), (400, 300)]"
    by (simp add: ex_cup_eq ex_dog_eq)
  with h u t show ?thesis
    by (intro conjI exI [of _ self'] exI [of _ outs])
qed

end
